theory Spec2Isabelle
  imports Complex_Main
begin

section \<open>Values\<close>

text \<open>
  A float of the program is \<open>NaN\<close> (the missing-value sentinel \<open>np.nan\<close>) or a finite
  number, idealised as the real it stands for: rounding and infinities are not
  modelled. Arithmetic propagates \<open>NaN\<close>, as IEEE arithmetic does.
\<close>

datatype pyfloat = NaN | Fl real

fun fmul :: "pyfloat \<Rightarrow> pyfloat \<Rightarrow> pyfloat" where
  "fmul (Fl a) (Fl b) = Fl (a * b)"
| "fmul _ _ = NaN"

fun fadd :: "pyfloat \<Rightarrow> pyfloat \<Rightarrow> pyfloat" where
  "fadd (Fl a) (Fl b) = Fl (a + b)"
| "fadd _ _ = NaN"

fun fabs :: "pyfloat \<Rightarrow> pyfloat" where
  "fabs (Fl a) = Fl \<bar>a\<bar>"
| "fabs NaN = NaN"

text \<open>
  The values a caller hands to the setters: \<open>None\<close>, a Python integer (unbounded), a
  float, or a one-dimensional array of floats.
\<close>

datatype pyval = PNone | PInt int | PFloat pyfloat | PArray "pyfloat list"

text \<open>
  The exceptions of the program. \<open>ValueError name got expected\<close> is the one
  \<open>_dobs_validator\<close> raises: its message names the field, the length received and
  \<open>survey.nD\<close>. \<open>ValueError_broadcast\<close> is numpy's own \<open>ValueError\<close> (shapes that
  do not broadcast), \<open>ValidationError_properties\<close> is the one of the \<open>properties\<close> library when
  \<open>properties.Array\<close> refuses a value that is no sequence.
\<close>

datatype error =
    ValueError string nat nat
  | ValueError_broadcast nat nat
  | ValidationError_properties string
  | TypeError
  | AttributeError string
  | OverflowError
  | KeyError
  | IndexError
  | Exception string

text \<open>
  \<open>float(value)\<close> on a Python integer: it raises \<open>OverflowError\<close> when the integer
  rounds to a magnitude of \<open>2 ^ 1024\<close> or more, the first value past the largest double
  (\<open>2 ^ 1024 - 2 ^ 971\<close>; the midpoint \<open>2 ^ 1024 - 2 ^ 970\<close> rounds up). The bound is
  exact. The value returned is idealised like every float here: the real the integer
  stands for, where \<open>float\<close> returns the nearest double (beyond \<open>2 ^ 53\<close> the two can
  differ); \<open>Fl (of_int i)\<close> reads as \<open>float(i)\<close>.
\<close>

definition py_float :: "int \<Rightarrow> error + pyfloat" where
  "py_float i =
     (if \<bar>i\<bar> \<ge> 2 ^ 1024 - 2 ^ 970 then Inl OverflowError else Inr (Fl (of_int i)))"

text \<open>\<open>len(value)\<close>: only an array has a length here.\<close>

fun py_len :: "pyval \<Rightarrow> error + nat" where
  "py_len (PArray a) = Inr (length a)"
| "py_len _ = Inl TypeError"

subsection \<open>The numpy operations the program calls\<close>

definition np_ones :: "nat \<Rightarrow> pyfloat list" where
  "np_ones n = replicate n (Fl 1)"

definition np_zeros :: "nat \<Rightarrow> pyfloat list" where
  "np_zeros n = replicate n (Fl 0)"

text \<open>\<open>np.arange(lo, hi)\<close> on integers.\<close>

definition np_arange :: "nat \<Rightarrow> nat \<Rightarrow> nat list" where
  "np_arange lo hi = [lo..<hi]"

text \<open>An operand of numpy arithmetic: a Python integer is converted to a float.\<close>

fun np_operand :: "pyval \<Rightarrow> error + pyval" where
  "np_operand PNone = Inl TypeError"
| "np_operand (PInt i) = (case py_float i of Inl e \<Rightarrow> Inl e | Inr f \<Rightarrow> Inr (PFloat f))"
| "np_operand v = Inr v"

text \<open>
  An element-wise binary operation with numpy's broadcasting, on scalars and
  one-dimensional arrays: equal lengths pair up, a length-one array and a scalar are
  repeated, any other pair of lengths is an error.
\<close>

fun np_broadcast :: "(pyfloat \<Rightarrow> pyfloat \<Rightarrow> pyfloat) \<Rightarrow> pyval \<Rightarrow> pyval \<Rightarrow> error + pyval" where
  "np_broadcast f (PArray a) (PArray b) =
     (if length a = length b then Inr (PArray (map2 f a b))
      else if length a = 1 then Inr (PArray (map (f (hd a)) b))
      else if length b = 1 then Inr (PArray (map (\<lambda>x. f x (hd b)) a))
      else Inl (ValueError_broadcast (length a) (length b)))"
| "np_broadcast f (PArray a) (PFloat y) = Inr (PArray (map (\<lambda>x. f x y) a))"
| "np_broadcast f (PFloat x) (PArray b) = Inr (PArray (map (f x) b))"
| "np_broadcast f (PFloat x) (PFloat y) = Inr (PFloat (f x y))"
| "np_broadcast f _ _ = Inl TypeError"

definition np_binop :: "(pyfloat \<Rightarrow> pyfloat \<Rightarrow> pyfloat) \<Rightarrow> pyval \<Rightarrow> pyval \<Rightarrow> error + pyval" where
  "np_binop f x y =
     (case np_operand x of
        Inl e \<Rightarrow> Inl e
      | Inr x' \<Rightarrow> (case np_operand y of Inl e \<Rightarrow> Inl e | Inr y' \<Rightarrow> np_broadcast f x' y'))"

fun np_absolute :: "pyval \<Rightarrow> error + pyval" where
  "np_absolute (PArray a) = Inr (PArray (map fabs a))"
| "np_absolute (PFloat x) = Inr (PFloat (fabs x))"
| "np_absolute (PInt i) = (case py_float i of Inl e \<Rightarrow> Inl e | Inr f \<Rightarrow> Inr (PFloat (fabs f)))"
| "np_absolute PNone = Inl TypeError"

text \<open>
  \<open>a[index]\<close> with an index array: the elements at the listed positions, or
  \<open>IndexError\<close> when a position is out of range.
\<close>

fun np_getitem :: "pyval \<Rightarrow> nat list \<Rightarrow> error + pyval" where
  "np_getitem (PArray a) index =
     (if \<forall>i \<in> set index. i < length a then Inr (PArray (map (\<lambda>i. a ! i) index))
      else Inl IndexError)"
| "np_getitem _ index = Inl TypeError"

text \<open>
  \<open>a[index] = value\<close> with an index array, in place, on an array of floats: the value
  is a scalar (written to every listed position; \<open>None\<close> is written as \<open>NaN\<close>), or an
  array of one element (repeated) or of as many elements as the index (written position
  by position, in order); any other length is numpy's shape error. The array keeps its
  length. (An array of integer dtype, into which numpy truncates, is outside the values
  modelled here.)
\<close>

fun assign_at :: "pyfloat list \<Rightarrow> (nat \<times> pyfloat) list \<Rightarrow> pyfloat list" where
  "assign_at a [] = a"
| "assign_at a ((i, x) # rest) = assign_at (a[i := x]) rest"

fun np_setitem :: "pyval \<Rightarrow> nat list \<Rightarrow> pyval \<Rightarrow> error + pyval" where
  "np_setitem (PArray a) index value =
     (if \<not> (\<forall>i \<in> set index. i < length a) then Inl IndexError
      else (case value of
          PNone \<Rightarrow> Inr (PArray (assign_at a (map (\<lambda>i. (i, NaN)) index)))
        | PInt i \<Rightarrow> (case py_float i of
              Inl e \<Rightarrow> Inl e
            | Inr f \<Rightarrow> Inr (PArray (assign_at a (map (\<lambda>i. (i, f)) index))))
        | PFloat f \<Rightarrow> Inr (PArray (assign_at a (map (\<lambda>i. (i, f)) index)))
        | PArray v \<Rightarrow>
            (if length v = length index then Inr (PArray (assign_at a (zip index v)))
             else if length v = 1 then Inr (PArray (assign_at a (map (\<lambda>i. (i, hd v)) index)))
             else Inl (ValueError_broadcast (length v) (length index)))))"
| "np_setitem _ index value = Inl TypeError"

section \<open>The survey\<close>

text \<open>
  Sources and receivers are objects; a dictionary keys them by identity. A record value
  stands for the object, its \<open>uid\<close> telling apart two objects that are otherwise alike.
\<close>

record Receiver =
  rx_uid :: nat
  rx_nD :: nat

record Source =
  src_uid :: nat
  receiver_list :: "Receiver list"

record Survey =
  source_list :: "Source list"

text \<open>
  Modelled from the spec: the survey class (\<open>BaseSurvey\<close>, module \<open>survey\<close>) is not among
  the sources. The spec gives its datum count: \<open>Survey.nD\<close> is the sum over all
  receivers of \<open>Receiver.nD\<close>.
\<close>

definition survey_nD :: "Survey \<Rightarrow> nat" where
  "survey_nD s = sum_list (map (\<lambda>src. sum_list (map rx_nD (receiver_list src))) (source_list s))"

section \<open>Data\<close>

type_synonym index_map = "Source \<Rightarrow> (Receiver \<Rightarrow> nat list option) option"

text \<open>
  The instance: its properties (\<open>PNone\<close> while unset), the attribute \<open>_index_dict\<close>
  (absent until the index is first asked for) and the warnings emitted so far.
\<close>

record Data =
  survey :: "Survey option"
  dobs :: pyval
  standard_deviation :: pyval
  noise_floor :: pyval
  index_dict_cache :: "index_map option"
  warnings :: "string list"

definition warn :: "string \<Rightarrow> 'a Data_scheme \<Rightarrow> 'a Data_scheme" where
  "warn msg d = d\<lparr>warnings := warnings d @ [msg]\<rparr>"

text \<open>\<open>nD\<close>: \<open>len(self.dobs)\<close>.\<close>

definition nD :: "'a Data_scheme \<Rightarrow> error + nat" where
  "nD d = py_len (dobs d)"

subsection \<open>Validation\<close>

text \<open>
  \<open>properties.Array.validate\<close> for the shape \<open>('*',)\<close>: a sequence is coerced to an
  array, anything else is refused.
\<close>

fun Array_validate :: "string \<Rightarrow> pyval \<Rightarrow> error + pyval" where
  "Array_validate name (PArray a) = Inr (PArray a)"
| "Array_validate name _ = Inl (ValidationError_properties name)"

text \<open>
  \<open>UncertaintyArray.validate\<close>: an integer becomes a float, a float is kept, and
  anything else goes to the validation of the class above \<open>properties.Array\<close>, which
  returns the value as it is.
\<close>

fun UncertaintyArray_validate :: "pyval \<Rightarrow> error + pyval" where
  "UncertaintyArray_validate (PInt i) =
     (case py_float i of Inl e \<Rightarrow> Inl e | Inr f \<Rightarrow> Inr (PFloat f))"
| "UncertaintyArray_validate (PFloat f) = Inr (PFloat f)"
| "UncertaintyArray_validate v = Inr v"

text \<open>\<open>_dobs_validator\<close>, on the change \<open>{name, value}\<close>: \<open>None\<close> when it accepts.\<close>

definition dobs_validator :: "'a Data_scheme \<Rightarrow> string \<Rightarrow> pyval \<Rightarrow> error option" where
  "dobs_validator d name value =
     (case survey d of
        None \<Rightarrow> Some (AttributeError ''nD'')
      | Some s \<Rightarrow>
          (case py_len value of
             Inl e \<Rightarrow> Some e
           | Inr n \<Rightarrow>
               if survey_nD s \<noteq> n then Some (ValueError name n (survey_nD s)) else None))"

text \<open>
  \<open>_uncertainty_validator\<close>: a float is broadcast to \<open>self.nD\<close> entries, then the value
  goes through \<open>_dobs_validator\<close>. It returns the value of the change.
\<close>

definition uncertainty_validator :: "'a Data_scheme \<Rightarrow> string \<Rightarrow> pyval \<Rightarrow> error + pyval" where
  "uncertainty_validator d name value =
     (case (case value of
              PFloat f \<Rightarrow>
                (case nD d of Inl e \<Rightarrow> Inl e | Inr n \<Rightarrow> Inr (PArray (map (fmul f) (np_ones n))))
            | _ \<Rightarrow> Inr value) of
        Inl e \<Rightarrow> Inl e
      | Inr value' \<Rightarrow>
          (case dobs_validator d name value' of Some e \<Rightarrow> Inl e | None \<Rightarrow> Inr value'))"

subsection \<open>Assignment to a property\<close>

text \<open>
  An assignment validates the value by the property's type, runs the validator of the
  field on the change, and stores the value of the change. An exception leaves the
  instance as it was. The result is the exception raised, if any, and the instance.
\<close>

definition set_dobs :: "'a Data_scheme \<Rightarrow> pyval \<Rightarrow> error option \<times> 'a Data_scheme" where
  "set_dobs d value =
     (case Array_validate ''dobs'' value of
        Inl e \<Rightarrow> (Some e, d)
      | Inr v \<Rightarrow>
          (case dobs_validator d ''dobs'' v of
             Some e \<Rightarrow> (Some e, d)
           | None \<Rightarrow> (None, d\<lparr>dobs := v\<rparr>)))"

definition set_standard_deviation :: "'a Data_scheme \<Rightarrow> pyval \<Rightarrow> error option \<times> 'a Data_scheme" where
  "set_standard_deviation d value =
     (case UncertaintyArray_validate value of
        Inl e \<Rightarrow> (Some e, d)
      | Inr v \<Rightarrow>
          (case uncertainty_validator d ''standard_deviation'' v of
             Inl e \<Rightarrow> (Some e, d)
           | Inr v' \<Rightarrow> (None, d\<lparr>standard_deviation := v'\<rparr>)))"

definition set_noise_floor :: "'a Data_scheme \<Rightarrow> pyval \<Rightarrow> error option \<times> 'a Data_scheme" where
  "set_noise_floor d value =
     (case UncertaintyArray_validate value of
        Inl e \<Rightarrow> (Some e, d)
      | Inr v \<Rightarrow>
          (case uncertainty_validator d ''noise_floor'' v of
             Inl e \<Rightarrow> (Some e, d)
           | Inr v' \<Rightarrow> (None, d\<lparr>noise_floor := v'\<rparr>)))"

subsection \<open>Construction\<close>

text \<open>
  \<open>Data.__init__\<close>, run on the new instance \<open>d\<close>: the survey is stored, then each array
  is defaulted when \<open>None\<close> and assigned through its setter.
\<close>

definition Data_init ::
  "'a Data_scheme \<Rightarrow> Survey \<Rightarrow> pyval \<Rightarrow> pyval \<Rightarrow> pyval \<Rightarrow> error option \<times> 'a Data_scheme" where
  "Data_init d s dobs0 standard_deviation0 noise_floor0 =
     (let d1 = d\<lparr>survey := Some s\<rparr>;
          dobs1 = (if dobs0 = PNone then PArray (map (fmul NaN) (np_ones (survey_nD s))) else dobs0)
      in case set_dobs d1 dobs1 of
           (Some e, d2) \<Rightarrow> (Some e, d2)
         | (None, d2) \<Rightarrow>
             (let sd1 = (if standard_deviation0 = PNone then PArray (np_zeros (survey_nD s))
                         else standard_deviation0)
              in case set_standard_deviation d2 sd1 of
                   (Some e, d3) \<Rightarrow> (Some e, d3)
                 | (None, d3) \<Rightarrow>
                     (let nf1 = (if noise_floor0 = PNone then PArray (np_zeros (survey_nD s))
                                 else noise_floor0)
                      in set_noise_floor d3 nf1)))"

text \<open>The instance before \<open>__init__\<close> has run: nothing is set.\<close>

definition new_Data :: Data where
  "new_Data = \<lparr>survey = None, dobs = PNone, standard_deviation = PNone, noise_floor = PNone,
               index_dict_cache = None, warnings = []\<rparr>"

subsection \<open>Uncertainty\<close>

text \<open>
  The getter of \<open>uncertainty\<close>: it starts from \<open>np.zeros(self.nD)\<close> and adds
  \<open>standard_deviation * np.absolute(dobs)\<close> and \<open>noise_floor\<close>, each when set.
\<close>

definition uncertainty :: "'a Data_scheme \<Rightarrow> error + pyval" where
  "uncertainty d =
     (if standard_deviation d = PNone \<and> noise_floor d = PNone
      then Inl (Exception ''The standard_deviation and / or noise_floor must be set'')
      else case nD d of
        Inl e \<Rightarrow> Inl e
      | Inr n \<Rightarrow>
          (case (if standard_deviation d \<noteq> PNone
                 then (case np_absolute (dobs d) of
                         Inl e \<Rightarrow> Inl e
                       | Inr ad \<Rightarrow>
                           (case np_binop fmul (standard_deviation d) ad of
                              Inl e \<Rightarrow> Inl e
                            | Inr t \<Rightarrow> np_binop fadd (PArray (np_zeros n)) t))
                 else Inr (PArray (np_zeros n))) of
             Inl e \<Rightarrow> Inl e
           | Inr uncert \<Rightarrow>
               if noise_floor d \<noteq> PNone then np_binop fadd uncert (noise_floor d)
               else Inr uncert))"

text \<open>
  The attribute \<open>self.self\<close> that the setter of \<open>uncertainty\<close> reads: the class has no
  attribute of that name, so the lookup raises.
\<close>

definition attr_self :: "'a Data_scheme \<Rightarrow> error + 'a Data_scheme" where
  "attr_self d = Inl (AttributeError ''self'')"

text \<open>
  The setter of \<open>uncertainty\<close>:
  \<^verbatim>\<open>self.self.standard_deviation = np.zeros(self.nD); self.noise_floor = value\<close>.
  The right-hand side is evaluated first, then the target \<open>self.self\<close>.
\<close>

definition set_uncertainty :: "'a Data_scheme \<Rightarrow> pyval \<Rightarrow> error option \<times> 'a Data_scheme" where
  "set_uncertainty d value =
     (case nD d of
        Inl e \<Rightarrow> (Some e, d)
      | Inr n \<Rightarrow>
          (case attr_self d of
             Inl e \<Rightarrow> (Some e, d)
           | Inr target \<Rightarrow>
               (case set_standard_deviation target (PArray (np_zeros n)) of
                  (Some e, d1) \<Rightarrow> (Some e, d1)
                | (None, d1) \<Rightarrow> set_noise_floor d1 value)))"

subsection \<open>The index of the data by source and receiver\<close>

text \<open>
  The loop over the receivers of one source, on the counters \<open>indBot\<close>, \<open>indTop\<close> and
  the dictionary: \<open>self._index_dict[src][rx] = np.arange(indBot, indTop)\<close> looks the
  source up first (\<open>KeyError\<close> when it is no key).
\<close>

fun rx_loop :: "Source \<Rightarrow> Receiver list \<Rightarrow> nat \<times> nat \<times> index_map
    \<Rightarrow> error option \<times> nat \<times> nat \<times> index_map" where
  "rx_loop src [] st = (None, st)"
| "rx_loop src (rx # rxs) (indBot, indTop, m) =
     (let indTop' = indTop + rx_nD rx in
      case m src of
        None \<Rightarrow> (Some KeyError, (indBot, indTop', m))
      | Some inner \<Rightarrow>
          rx_loop src rxs
            (indBot + rx_nD rx, indTop', m(src \<mapsto> inner(rx \<mapsto> np_arange indBot indTop'))))"

fun src_loop :: "Source list \<Rightarrow> nat \<times> nat \<times> index_map
    \<Rightarrow> error option \<times> nat \<times> nat \<times> index_map" where
  "src_loop [] st = (None, st)"
| "src_loop (src # srcs) st =
     (case rx_loop src (receiver_list src) st of
        (Some e, st') \<Rightarrow> (Some e, st')
      | (None, st') \<Rightarrow> src_loop srcs st')"

text \<open>The first loop: an empty dictionary for every source.\<close>

definition empty_dicts :: "Source list \<Rightarrow> index_map" where
  "empty_dicts srcs = fold (\<lambda>src m. m(src \<mapsto> Map.empty)) srcs Map.empty"

text \<open>
  The property \<open>index_dict\<close>: built on the first call and kept in \<open>_index_dict\<close>. The
  result is the dictionary or the exception, and the instance with its cache.
\<close>

definition index_dict :: "'a Data_scheme \<Rightarrow> (error + index_map) \<times> 'a Data_scheme" where
  "index_dict d =
     (case index_dict_cache d of
        Some m \<Rightarrow> (Inr m, d)
      | None \<Rightarrow>
          (case survey d of
             None \<Rightarrow> (Inl (Exception ''a survey must first be set''), d)
           | Some s \<Rightarrow>
               (case src_loop (source_list s) (0, 0, empty_dicts (source_list s)) of
                  (Some e, (indBot, indTop, m)) \<Rightarrow> (Inl e, d\<lparr>index_dict_cache := Some m\<rparr>)
                | (None, (indBot, indTop, m)) \<Rightarrow> (Inr m, d\<lparr>index_dict_cache := Some m\<rparr>))))"

text \<open>\<open>data.index_dict[src][rx]\<close>: two subscripts, each a \<open>KeyError\<close> on a missing key.\<close>

definition index_of :: "'a Data_scheme \<Rightarrow> Source \<Rightarrow> Receiver \<Rightarrow> (error + nat list) \<times> 'a Data_scheme" where
  "index_of d src rx =
     (case index_dict d of
        (Inl e, d') \<Rightarrow> (Inl e, d')
      | (Inr m, d') \<Rightarrow>
          (case m src of
             None \<Rightarrow> (Inl KeyError, d')
           | Some inner \<Rightarrow>
               (case inner rx of None \<Rightarrow> (Inl KeyError, d') | Some index \<Rightarrow> (Inr index, d'))))"

text \<open>
  The access the class documents:
  \<^verbatim>\<open>index = data.index_dict[src][rx]; datum = data.dobs[index]\<close> and
  \<^verbatim>\<open>index = data.index_dict[src][rx]; data.dobs[index] = datum\<close>.
\<close>

definition range_read :: "'a Data_scheme \<Rightarrow> Source \<Rightarrow> Receiver \<Rightarrow> (error + pyval) \<times> 'a Data_scheme" where
  "range_read d src rx =
     (case index_of d src rx of
        (Inl e, d') \<Rightarrow> (Inl e, d')
      | (Inr index, d') \<Rightarrow> (np_getitem (dobs d') index, d'))"

definition range_write :: "'a Data_scheme \<Rightarrow> Source \<Rightarrow> Receiver \<Rightarrow> pyval \<Rightarrow> error option \<times> 'a Data_scheme" where
  "range_write d src rx value =
     (case index_of d src rx of
        (Inl e, d') \<Rightarrow> (Some e, d')
      | (Inr index, d') \<Rightarrow>
          (case np_setitem (dobs d') index value of
             Inl e \<Rightarrow> (Some e, d')
           | Inr a \<Rightarrow> (None, d'\<lparr>dobs := a\<rparr>)))"

subsection \<open>Deprecated dictionary-style access\<close>

definition dict_deprecation :: string where
  "dict_deprecation = ''Treating the data object as a dictionary has been depreciated''"

text \<open>\<open>__setitem__\<close> and \<open>__getitem__\<close>, on the key \<open>(src, rx)\<close>.\<close>

definition setitem :: "'a Data_scheme \<Rightarrow> Source \<times> Receiver \<Rightarrow> pyval \<Rightarrow> error option \<times> 'a Data_scheme" where
  "setitem d key value =
     (let d0 = warn dict_deprecation d in
      case index_dict d0 of
        (Inl e, d1) \<Rightarrow> (Some e, d1)
      | (Inr m, d1) \<Rightarrow>
          (case m (fst key) of
             None \<Rightarrow> (Some KeyError, d1)
           | Some inner \<Rightarrow>
               (case inner (snd key) of
                  None \<Rightarrow> (Some KeyError, d1)
                | Some index \<Rightarrow>
                    (case np_setitem (dobs d1) index value of
                       Inl e \<Rightarrow> (Some e, d1)
                     | Inr a \<Rightarrow> (None, d1\<lparr>dobs := a\<rparr>)))))"

definition getitem :: "'a Data_scheme \<Rightarrow> Source \<times> Receiver \<Rightarrow> (error + pyval) \<times> 'a Data_scheme" where
  "getitem d key =
     (let d0 = warn dict_deprecation d in
      case index_dict d0 of
        (Inl e, d1) \<Rightarrow> (Inl e, d1)
      | (Inr m, d1) \<Rightarrow>
          (case m (fst key) of
             None \<Rightarrow> (Inl KeyError, d1)
           | Some inner \<Rightarrow>
               (case inner (snd key) of
                  None \<Rightarrow> (Inl KeyError, d1)
                | Some index \<Rightarrow> (np_getitem (dobs d1) index, d1))))"

section \<open>SyntheticData\<close>

record SyntheticData = Data +
  dclean :: pyval

text \<open>\<open>_dclean_validator\<close> hands the change to \<open>_dobs_validator\<close>.\<close>

definition dclean_validator :: "'a SyntheticData_scheme \<Rightarrow> string \<Rightarrow> pyval \<Rightarrow> error option" where
  "dclean_validator d name value = dobs_validator d name value"

definition set_dclean :: "'a SyntheticData_scheme \<Rightarrow> pyval \<Rightarrow> error option \<times> 'a SyntheticData_scheme" where
  "set_dclean d value =
     (case Array_validate ''dclean'' value of
        Inl e \<Rightarrow> (Some e, d)
      | Inr v \<Rightarrow>
          (case dclean_validator d ''dclean'' v of
             Some e \<Rightarrow> (Some e, d)
           | None \<Rightarrow> (None, d\<lparr>dclean := v\<rparr>)))"

text \<open>
  \<open>SyntheticData.__init__\<close>: the constructor of \<open>Data\<close>, then \<open>dclean\<close>, defaulted from
  \<open>self.survey.nD\<close> when \<open>None\<close>.
\<close>

definition SyntheticData_init ::
  "'a SyntheticData_scheme \<Rightarrow> Survey \<Rightarrow> pyval \<Rightarrow> pyval \<Rightarrow> pyval \<Rightarrow> pyval
     \<Rightarrow> error option \<times> 'a SyntheticData_scheme" where
  "SyntheticData_init d s dobs0 dclean0 standard_deviation0 noise_floor0 =
     (case Data_init d s dobs0 standard_deviation0 noise_floor0 of
        (Some e, d1) \<Rightarrow> (Some e, d1)
      | (None, d1) \<Rightarrow>
          (if dclean0 = PNone
           then (case survey d1 of
                   None \<Rightarrow> (Some (AttributeError ''nD''), d1)
                 | Some s1 \<Rightarrow> set_dclean d1 (PArray (map (fmul NaN) (np_ones (survey_nD s1)))))
           else set_dclean d1 dclean0))"

definition new_SyntheticData :: SyntheticData where
  "new_SyntheticData = \<lparr>survey = None, dobs = PNone, standard_deviation = PNone,
     noise_floor = PNone, index_dict_cache = None, warnings = [], dclean = PNone\<rparr>"

section \<open>Vocabulary of the statements\<close>

text \<open>
  The walk of the index: the sources in order, the receivers of each source in order.
  \<open>offset s k\<close> is the number of data of the first \<open>k\<close> pairs of the walk, and
  \<open>assigned ps b\<close> lists, for a walk \<open>ps\<close> that starts at offset \<open>b\<close>, the range each
  pair is given when its turn comes.
\<close>

definition walk_sources :: "Source list \<Rightarrow> (Source \<times> Receiver) list" where
  "walk_sources srcs = concat (map (\<lambda>src. map (Pair src) (receiver_list src)) srcs)"

definition walk :: "Survey \<Rightarrow> (Source \<times> Receiver) list" where
  "walk s = walk_sources (source_list s)"

definition count_data :: "(Source \<times> Receiver) list \<Rightarrow> nat" where
  "count_data ps = sum_list (map (\<lambda>p. rx_nD (snd p)) ps)"

definition offset :: "Survey \<Rightarrow> nat \<Rightarrow> nat" where
  "offset s k = count_data (take k (walk s))"

fun assigned :: "(Source \<times> Receiver) list \<Rightarrow> nat \<Rightarrow> ((Source \<times> Receiver) \<times> nat list) list" where
  "assigned [] b = []"
| "assigned (p # ps) b = (p, [b..<b + rx_nD (snd p)]) # assigned ps (b + rx_nD (snd p))"

text \<open>The two subscripts of the dictionary as one lookup by the pair.\<close>

definition lookup2 :: "index_map \<Rightarrow> Source \<times> Receiver \<Rightarrow> nat list option" where
  "lookup2 m k = (case m (fst k) of None \<Rightarrow> None | Some inner \<Rightarrow> inner (snd k))"

text \<open>
  The dictionary the loops leave for a survey, and the state of the cache the statements
  are about: not built yet, or built from the survey the instance holds. (The program
  does not rebuild the cache when \<open>survey\<close> is assigned again.)
\<close>

definition built_index :: "Survey \<Rightarrow> index_map" where
  "built_index s = snd (snd (snd (src_loop (source_list s) (0, 0, empty_dicts (source_list s)))))"

definition cache_ok :: "'a Data_scheme \<Rightarrow> Survey \<Rightarrow> bool" where
  "cache_ok d s = (index_dict_cache d = None \<or> index_dict_cache d = Some (built_index s))"

subsection \<open>Instances\<close>

text \<open>
  The invariant of an instance of survey \<open>s\<close>: it holds \<open>s\<close>, its index is not built yet
  or was built from \<open>s\<close>, and \<open>dobs\<close> is an array of \<open>survey.nD\<close> entries.
\<close>

definition invariant :: "'a Data_scheme \<Rightarrow> Survey \<Rightarrow> bool" where
  "invariant d s =
     (survey d = Some s \<and> cache_ok d s \<and> (\<exists>a. dobs d = PArray a \<and> length a = survey_nD s))"

text \<open>
  The \<open>Data\<close> instances of a survey: what a constructor call that did not raise returns,
  and what the assignments and accesses of the class make of an instance, whether they
  raise or not. (Assigning the survey again is not among them.)
\<close>

inductive Data_instance :: "Survey \<Rightarrow> Data \<Rightarrow> bool" where
  constructed: "Data_init new_Data s dobs0 sd0 nf0 = (None, d) \<Longrightarrow> Data_instance s d"
| assigned_dobs: "Data_instance s d \<Longrightarrow> Data_instance s (snd (set_dobs d v))"
| assigned_standard_deviation:
    "Data_instance s d \<Longrightarrow> Data_instance s (snd (set_standard_deviation d v))"
| assigned_noise_floor: "Data_instance s d \<Longrightarrow> Data_instance s (snd (set_noise_floor d v))"
| assigned_uncertainty: "Data_instance s d \<Longrightarrow> Data_instance s (snd (set_uncertainty d v))"
| indexed: "Data_instance s d \<Longrightarrow> Data_instance s (snd (index_dict d))"
| item_read: "Data_instance s d \<Longrightarrow> Data_instance s (snd (getitem d key))"
| item_written: "Data_instance s d \<Longrightarrow> Data_instance s (snd (setitem d key v))"
| range_written: "Data_instance s d \<Longrightarrow> Data_instance s (snd (range_write d src rx v))"

subsection \<open>Two surveys\<close>

text \<open>
  The survey of the specification's example: sources \<open>[s1, s2]\<close>, \<open>s1\<close> with receivers
  \<open>[r1 (nD = 2), r2 (nD = 3)]\<close>, \<open>s2\<close> with \<open>[r3 (nD = 1)]\<close>; and the data object
  constructed from it without arrays.
\<close>

definition ex_r1 :: Receiver where "ex_r1 = \<lparr>rx_uid = 1, rx_nD = 2\<rparr>"

definition ex_r2 :: Receiver where "ex_r2 = \<lparr>rx_uid = 2, rx_nD = 3\<rparr>"

definition ex_r3 :: Receiver where "ex_r3 = \<lparr>rx_uid = 3, rx_nD = 1\<rparr>"

definition ex_s1 :: Source where "ex_s1 = \<lparr>src_uid = 1, receiver_list = [ex_r1, ex_r2]\<rparr>"

definition ex_s2 :: Source where "ex_s2 = \<lparr>src_uid = 2, receiver_list = [ex_r3]\<rparr>"

definition ex_survey :: Survey where "ex_survey = \<lparr>source_list = [ex_s1, ex_s2]\<rparr>"

definition ex_data :: Data where
  "ex_data = snd (Data_init new_Data ex_survey PNone PNone PNone)"

text \<open>A survey whose one source lists the same receiver object twice.\<close>

definition dup_r :: Receiver where "dup_r = \<lparr>rx_uid = 1, rx_nD = 2\<rparr>"

definition dup_s :: Source where "dup_s = \<lparr>src_uid = 1, receiver_list = [dup_r, dup_r]\<rparr>"

definition dup_survey :: Survey where "dup_survey = \<lparr>source_list = [dup_s]\<rparr>"

definition dup_data :: Data where
  "dup_data = snd (Data_init new_Data dup_survey PNone PNone PNone)"

text \<open>The synthetic data constructed from the example survey without arrays.\<close>

definition ex_synthetic :: SyntheticData where
  "ex_synthetic = snd (SyntheticData_init new_SyntheticData ex_survey PNone PNone PNone PNone)"

section \<open>Arithmetic of the floats\<close>

lemma fadd_zero_left: "fadd (Fl 0) x = x"
  by (cases x) simp_all

lemma fmul_one_right: "fmul x (Fl 1) = x"
  by (cases x) simp_all

lemma map_fmul_ones: "map (fmul x) (np_ones n) = replicate n x"
  by (simp add: np_ones_def fmul_one_right)

section \<open>Construction\<close>

lemma Data_init_no_arrays:
  "Data_init new_Data s PNone PNone PNone =
     (None, \<lparr>survey = Some s,
             dobs = PArray (replicate (survey_nD s) NaN),
             standard_deviation = PArray (replicate (survey_nD s) (Fl 0)),
             noise_floor = PArray (replicate (survey_nD s) (Fl 0)),
             index_dict_cache = None, warnings = []\<rparr>)"
  by (simp add: Data_init_def new_Data_def set_dobs_def set_standard_deviation_def
      set_noise_floor_def dobs_validator_def uncertainty_validator_def np_ones_def np_zeros_def)

text \<open>
  Claim C7. For every survey with datum count \<open>n\<close>, \<open>Data(survey)\<close> succeeds and leaves
  \<open>dobs\<close>, \<open>standard_deviation\<close> and \<open>noise_floor\<close> of length \<open>n\<close>: every entry of
  \<open>dobs\<close> is the missing-value sentinel, every entry of the other two is zero.
\<close>

theorem Data_init_defaults:
  "Data_init new_Data s PNone PNone PNone =
     (None, \<lparr>survey = Some s,
             dobs = PArray (replicate (survey_nD s) NaN),
             standard_deviation = PArray (replicate (survey_nD s) (Fl 0)),
             noise_floor = PArray (replicate (survey_nD s) (Fl 0)),
             index_dict_cache = None, warnings = []\<rparr>)
   \<and> py_len (dobs (snd (Data_init new_Data s PNone PNone PNone))) = Inr (survey_nD s)
   \<and> py_len (standard_deviation (snd (Data_init new_Data s PNone PNone PNone))) = Inr (survey_nD s)
   \<and> py_len (noise_floor (snd (Data_init new_Data s PNone PNone PNone))) = Inr (survey_nD s)"
  by (simp add: Data_init_no_arrays)

subsection \<open>The two surveys\<close>

lemma ex_survey_nD: "survey_nD ex_survey = 6"
  by (simp add: survey_nD_def ex_survey_def ex_s1_def ex_s2_def ex_r1_def ex_r2_def ex_r3_def)

lemma ex_data_eq: "ex_data = \<lparr>survey = Some ex_survey,
             dobs = PArray (replicate 6 NaN),
             standard_deviation = PArray (replicate 6 (Fl 0)),
             noise_floor = PArray (replicate 6 (Fl 0)),
             index_dict_cache = None, warnings = []\<rparr>"
  by (simp add: ex_data_def Data_init_no_arrays ex_survey_nD)

lemma survey_ex_data: "survey ex_data = Some ex_survey"
  and cache_ex_data: "cache_ok ex_data ex_survey"
  and dobs_ex_data: "dobs ex_data = PArray (replicate 6 NaN)"
  by (simp_all add: ex_data_eq cache_ok_def)

lemma length_ex_dobs: "length (replicate 6 NaN) = survey_nD ex_survey"
  by (simp add: ex_survey_nD)

lemma ex_members: "ex_s1 \<in> set (source_list ex_survey)" "ex_r2 \<in> set (receiver_list ex_s1)"
  by (simp_all add: ex_survey_def ex_s1_def)

lemma dup_survey_nD: "survey_nD dup_survey = 4"
  by (simp add: survey_nD_def dup_survey_def dup_s_def dup_r_def)

lemma dup_data_eq: "dup_data = \<lparr>survey = Some dup_survey,
             dobs = PArray (replicate 4 NaN),
             standard_deviation = PArray (replicate 4 (Fl 0)),
             noise_floor = PArray (replicate 4 (Fl 0)),
             index_dict_cache = None, warnings = []\<rparr>"
  by (simp add: dup_data_def Data_init_no_arrays dup_survey_nD)

section \<open>The length check of the setters\<close>

text \<open>
  Claim C5. On an instance whose survey counts \<open>n\<close> data, assigning an array of a
  length other than \<open>n\<close> to \<open>dobs\<close>, \<open>standard_deviation\<close> or \<open>noise_floor\<close> raises the
  error of the length check (the \<open>ValueError\<close> of \<open>_dobs_validator\<close>, which the
  specification calls \<open>ValidationError\<close>): it names the field, the length received and
  the length expected, and the instance is left as it was.
\<close>

theorem wrong_length_rejected:
  assumes "survey d = Some s" and "length a \<noteq> survey_nD s"
  shows "set_dobs d (PArray a) = (Some (ValueError ''dobs'' (length a) (survey_nD s)), d)
       \<and> set_standard_deviation d (PArray a)
           = (Some (ValueError ''standard_deviation'' (length a) (survey_nD s)), d)
       \<and> set_noise_floor d (PArray a)
           = (Some (ValueError ''noise_floor'' (length a) (survey_nD s)), d)"
  using assms
  by (auto simp: set_dobs_def set_standard_deviation_def set_noise_floor_def
      dobs_validator_def uncertainty_validator_def)

theorem wrong_length_rejected_witness:
  "survey ex_data = Some ex_survey \<and> length [Fl 1, Fl 2] \<noteq> survey_nD ex_survey
   \<and> set_dobs ex_data (PArray [Fl 1, Fl 2]) = (Some (ValueError ''dobs'' 2 6), ex_data)
   \<and> set_standard_deviation ex_data (PArray [Fl 1, Fl 2])
       = (Some (ValueError ''standard_deviation'' 2 6), ex_data)
   \<and> set_noise_floor ex_data (PArray [Fl 1, Fl 2])
       = (Some (ValueError ''noise_floor'' 2 6), ex_data)"
proof -
  have l: "length [Fl 1, Fl 2] \<noteq> survey_nD ex_survey"
    by (simp add: ex_survey_nD)
  note t = wrong_length_rejected [OF survey_ex_data l, unfolded ex_survey_nD]
  show ?thesis
    using survey_ex_data l t by simp
qed

section \<open>Uncertainty\<close>

text \<open>
  Claim C4. In a state where \<open>dobs\<close>, \<open>standard_deviation\<close> and \<open>noise_floor\<close> are
  arrays of the same length \<open>n\<close>, reading \<open>uncertainty\<close> returns the array whose entry
  \<open>i\<close> is \<open>standard_deviation[i] * abs(dobs[i]) + noise_floor[i]\<close>.
\<close>

theorem uncertainty_formula:
  assumes "dobs d = PArray a" and "standard_deviation d = PArray b"
    and "noise_floor d = PArray c"
    and "length a = n" and "length b = n" and "length c = n"
  shows "uncertainty d
           = Inr (PArray (map (\<lambda>i. fadd (fmul (b ! i) (fabs (a ! i))) (c ! i)) [0..<n]))"
proof -
  have "map2 fadd (map2 fadd (np_zeros n) (map2 fmul b (map fabs a))) c
          = map (\<lambda>i. fadd (fmul (b ! i) (fabs (a ! i))) (c ! i)) [0..<n]"
    using assms(4-6) by (intro nth_equalityI) (simp_all add: np_zeros_def fadd_zero_left)
  then show ?thesis
    using assms by (simp add: uncertainty_def nD_def np_binop_def np_zeros_def)
qed

theorem uncertainty_formula_witness:
  "uncertainty \<lparr>survey = Some ex_survey, dobs = PArray [Fl (-2), Fl 3],
       standard_deviation = PArray [Fl (1/2), Fl 0], noise_floor = PArray [Fl 1, Fl 4],
       index_dict_cache = None, warnings = []\<rparr>
     = Inr (PArray [Fl 2, Fl 4])"
  using uncertainty_formula [of "\<lparr>survey = Some ex_survey, dobs = PArray [Fl (-2), Fl 3],
       standard_deviation = PArray [Fl (1/2), Fl 0], noise_floor = PArray [Fl 1, Fl 4],
       index_dict_cache = None, warnings = []\<rparr>" "[Fl (-2), Fl 3]" "[Fl (1/2), Fl 0]" "[Fl 1, Fl 4]" 2]
  by (simp add: upt_rec)

text \<open>
  Claim C1 (the program departs from it). The claim: assigning \<open>data.uncertainty = u\<close>
  completes, zeroes \<open>standard_deviation\<close> and stores \<open>u\<close> in \<open>noise_floor\<close>. The setter
  assigns to \<open>self.self.standard_deviation\<close>, and the instance has no attribute \<open>self\<close>:
  every call raises (\<open>AttributeError\<close>, or \<open>TypeError\<close> from \<open>self.nD\<close> when \<open>dobs\<close> is
  unset) and leaves both fields as they were; so it does on the instance constructed
  from the example survey, given six ones.
\<close>

theorem set_uncertainty_raises:
  "set_uncertainty d value
     = (Some (case nD d of Inl e \<Rightarrow> e | Inr n \<Rightarrow> AttributeError ''self''), d)
   \<and> set_uncertainty ex_data (PArray (replicate 6 (Fl 1)))
     = (Some (AttributeError ''self''), ex_data)
   \<and> standard_deviation ex_data = PArray (replicate 6 (Fl 0))
   \<and> noise_floor ex_data = PArray (replicate 6 (Fl 0))"
  by (simp add: set_uncertainty_def attr_self_def nD_def ex_data_eq split: sum.splits)

section \<open>The index of the data\<close>

subsection \<open>What the loops compute\<close>

lemma count_data_simps [simp]:
  "count_data [] = 0" "count_data (p # ps) = rx_nD (snd p) + count_data ps"
  "count_data (ps @ qs) = count_data ps + count_data qs"
  by (simp_all add: count_data_def)

lemma count_data_Pair [simp]: "count_data (map (Pair src) rxs) = sum_list (map rx_nD rxs)"
  by (induction rxs) simp_all

lemma walk_sources_simps [simp]:
  "walk_sources [] = []"
  "walk_sources (src # srcs) = map (Pair src) (receiver_list src) @ walk_sources srcs"
  by (simp_all add: walk_sources_def)

lemma survey_nD_walk: "survey_nD s = count_data (walk s)"
proof -
  have "sum_list (map (\<lambda>src. sum_list (map rx_nD (receiver_list src))) srcs)
          = count_data (walk_sources srcs)" for srcs
    by (induction srcs) simp_all
  then show ?thesis by (simp add: survey_nD_def walk_def)
qed

lemma assigned_append:
  "assigned (ps @ qs) b = assigned ps b @ assigned qs (b + count_data ps)"
  by (induction ps arbitrary: b) (simp_all add: add.assoc)

lemma map_fst_assigned [simp]: "map fst (assigned ps b) = ps"
  by (induction ps arbitrary: b) simp_all

lemma length_assigned [simp]: "length (assigned ps b) = length ps"
  by (induction ps arbitrary: b) simp_all

lemma assigned_nth:
  "k < length ps \<Longrightarrow> assigned ps b ! k
     = (ps ! k, [b + count_data (take k ps)..<b + count_data (take (Suc k) ps)])"
proof (induction ps arbitrary: b k)
  case Nil
  then show ?case by simp
next
  case (Cons p ps)
  show ?case
  proof (cases k)
    case 0
    then show ?thesis by simp
  next
    case (Suc j)
    with Cons.prems have "j < length ps" by simp
    from Cons.IH [OF this, of "b + rx_nD (snd p)"] Suc show ?thesis
      by (simp add: add.assoc)
  qed
qed

lemma assigned_bounds:
  "(p, idx) \<in> set (assigned ps b) \<Longrightarrow>
     \<exists>lo. idx = [lo..<lo + rx_nD (snd p)] \<and> b \<le> lo \<and> lo + rx_nD (snd p) \<le> b + count_data ps"
proof (induction ps arbitrary: b)
  case Nil
  then show ?case by simp
next
  case (Cons q ps)
  from Cons.prems consider "p = q" "idx = [b..<b + rx_nD (snd q)]"
    | "(p, idx) \<in> set (assigned ps (b + rx_nD (snd q)))" by auto
  then show ?case
  proof cases
    case 1
    then show ?thesis by auto
  next
    case 2
    from Cons.IH [OF this] obtain lo where "idx = [lo..<lo + rx_nD (snd p)]"
      "b + rx_nD (snd q) \<le> lo" "lo + rx_nD (snd p) \<le> b + rx_nD (snd q) + count_data ps"
      by blast
    then show ?thesis by (intro exI [of _ lo]) simp
  qed
qed

lemma lookup2_upd:
  "m src = Some inner \<Longrightarrow>
     lookup2 (m(src \<mapsto> inner(rx \<mapsto> idx))) = (lookup2 m)((src, rx) \<mapsto> idx)"
  by (rule ext) (auto simp: lookup2_def split: option.splits)

lemma rx_loop_spec:
  "m src = Some inner \<Longrightarrow>
     \<exists>m'. rx_loop src rxs (b, b, m)
            = (None, b + sum_list (map rx_nD rxs), b + sum_list (map rx_nD rxs), m')
         \<and> dom m' = dom m
         \<and> lookup2 m' = lookup2 m ++ map_of (rev (assigned (map (Pair src) rxs) b))"
proof (induction rxs arbitrary: b m inner)
  case Nil
  then show ?case by simp
next
  case (Cons rx rxs)
  let ?n = "rx_nD rx"
  let ?m1 = "m(src \<mapsto> inner(rx \<mapsto> [b..<b + ?n]))"
  have key: "?m1 src = Some (inner(rx \<mapsto> [b..<b + ?n]))" by simp
  from Cons.IH [where m = ?m1 and inner = "inner(rx \<mapsto> [b..<b + ?n])" and b = "b + ?n", OF key] obtain m' where
    run: "rx_loop src rxs (b + ?n, b + ?n, ?m1)
            = (None, b + ?n + sum_list (map rx_nD rxs), b + ?n + sum_list (map rx_nD rxs), m')"
    and dm: "dom m' = dom ?m1"
    and lk: "lookup2 m' = lookup2 ?m1 ++ map_of (rev (assigned (map (Pair src) rxs) (b + ?n)))"
    by blast
  have "rx_loop src (rx # rxs) (b, b, m)
          = (None, b + sum_list (map rx_nD (rx # rxs)), b + sum_list (map rx_nD (rx # rxs)), m')"
    using Cons.prems run by (simp add: np_arange_def add.assoc)
  moreover have "dom m' = dom m"
    using dm Cons.prems by auto
  moreover have "lookup2 m' = lookup2 m ++ map_of (rev (assigned (map (Pair src) (rx # rxs)) b))"
    using lk Cons.prems by (simp add: lookup2_upd map_add_upd_left)
  ultimately show ?case by blast
qed

lemma src_loop_spec:
  "set srcs \<subseteq> dom m \<Longrightarrow>
     \<exists>m'. src_loop srcs (b, b, m)
            = (None, b + count_data (walk_sources srcs), b + count_data (walk_sources srcs), m')
         \<and> dom m' = dom m
         \<and> lookup2 m' = lookup2 m ++ map_of (rev (assigned (walk_sources srcs) b))"
proof (induction srcs arbitrary: b m)
  case Nil
  then show ?case by simp
next
  case (Cons src srcs)
  let ?n = "sum_list (map rx_nD (receiver_list src))"
  from Cons.prems obtain inner where "m src = Some inner" by auto
  from rx_loop_spec [where m = m and src = src and inner = inner and rxs = "receiver_list src" and b = b, OF this] obtain m1 where
    r1: "rx_loop src (receiver_list src) (b, b, m) = (None, b + ?n, b + ?n, m1)"
    and d1: "dom m1 = dom m"
    and l1: "lookup2 m1 = lookup2 m ++ map_of (rev (assigned (map (Pair src) (receiver_list src)) b))"
    by blast
  from Cons.prems d1 have "set srcs \<subseteq> dom m1" by simp
  from Cons.IH [where m = m1 and b = "b + ?n", OF this] obtain m' where
    r2: "src_loop srcs (b + ?n, b + ?n, m1)
           = (None, b + ?n + count_data (walk_sources srcs),
              b + ?n + count_data (walk_sources srcs), m')"
    and d2: "dom m' = dom m1"
    and l2: "lookup2 m' = lookup2 m1 ++ map_of (rev (assigned (walk_sources srcs) (b + ?n)))"
    by blast
  have "src_loop (src # srcs) (b, b, m)
          = (None, b + count_data (walk_sources (src # srcs)),
             b + count_data (walk_sources (src # srcs)), m')"
    using r1 r2 by (simp add: add.assoc)
  moreover have "dom m' = dom m" using d1 d2 by simp
  moreover have "lookup2 m' = lookup2 m ++ map_of (rev (assigned (walk_sources (src # srcs)) b))"
    using l1 l2 by (simp add: assigned_append)
  ultimately show ?case by blast
qed

lemma empty_dicts_apply:
  "empty_dicts srcs src = (if src \<in> set srcs then Some Map.empty else None)"
proof -
  have "fold (\<lambda>src m. m(src \<mapsto> Map.empty)) srcs m0 src
          = (if src \<in> set srcs then Some Map.empty else m0 src)"
    for m0 :: index_map
    by (induction srcs arbitrary: m0) auto
  then show ?thesis by (simp add: empty_dicts_def)
qed

lemma lookup2_empty_dicts: "lookup2 (empty_dicts srcs) = Map.empty"
  by (rule ext) (simp add: lookup2_def empty_dicts_apply)

lemma dom_empty_dicts: "dom (empty_dicts srcs) = set srcs"
  by (auto simp: empty_dicts_apply dom_def)

lemma built_index_spec:
  "src_loop (source_list s) (0, 0, empty_dicts (source_list s))
     = (None, survey_nD s, survey_nD s, built_index s)"
  "dom (built_index s) = set (source_list s)"
  "lookup2 (built_index s) = map_of (rev (assigned (walk s) 0))"
proof -
  have "set (source_list s) \<subseteq> dom (empty_dicts (source_list s))"
    by (simp add: dom_empty_dicts)
  from src_loop_spec [where m = "empty_dicts (source_list s)" and b = 0, OF this] obtain m' where
    r: "src_loop (source_list s) (0, 0, empty_dicts (source_list s))
          = (None, count_data (walk s), count_data (walk s), m')"
    and d: "dom m' = set (source_list s)"
    and l: "lookup2 m' = map_of (rev (assigned (walk s) 0))"
    by (auto simp: walk_def dom_empty_dicts lookup2_empty_dicts)
  from r have b: "built_index s = m'" by (simp add: built_index_def)
  show "src_loop (source_list s) (0, 0, empty_dicts (source_list s))
     = (None, survey_nD s, survey_nD s, built_index s)"
    using r b by (simp add: survey_nD_walk)
  show "dom (built_index s) = set (source_list s)" using d b by simp
  show "lookup2 (built_index s) = map_of (rev (assigned (walk s) 0))" using l b by simp
qed

lemma index_dict_built:
  assumes "survey d = Some s" and "cache_ok d s"
  shows "index_dict d = (Inr (built_index s), d\<lparr>index_dict_cache := Some (built_index s)\<rparr>)"
proof (cases "index_dict_cache d")
  case None
  then show ?thesis
    using assms(1) by (simp add: index_dict_def built_index_spec(1))
next
  case (Some m)
  with assms(2) have "index_dict_cache d = Some (built_index s)"
    by (simp add: cache_ok_def)
  then show ?thesis by (simp add: index_dict_def)
qed

lemma index_of_built:
  assumes "survey d = Some s" and "cache_ok d s"
  shows "index_of d src rx
           = (case map_of (rev (assigned (walk s) 0)) (src, rx) of
                None \<Rightarrow> Inl KeyError | Some idx \<Rightarrow> Inr idx,
              d\<lparr>index_dict_cache := Some (built_index s)\<rparr>)"
proof -
  have "lookup2 (built_index s) (src, rx) = map_of (rev (assigned (walk s) 0)) (src, rx)"
    by (simp add: built_index_spec(3))
  then show ?thesis
    by (auto simp: index_of_def index_dict_built [OF assms] lookup2_def split: option.splits)
qed

lemma cache_ok_fresh: "index_dict_cache d = None \<Longrightarrow> cache_ok d s"
  by (simp add: cache_ok_def)

lemma fst_set_assigned [simp]: "fst ` set (assigned ps b) = set ps"
proof -
  have "set (map fst (assigned ps b)) = set ps" by simp
  then show ?thesis by (simp only: set_map)
qed

lemma index_of_walk_nth:
  assumes "survey d = Some s" and "cache_ok d s" and "distinct (walk s)" and "k < length (walk s)"
  shows "fst (index_of d (fst (walk s ! k)) (snd (walk s ! k)))
           = Inr [offset s k..<offset s (Suc k)]"
proof -
  let ?R = "assigned (walk s) 0"
  have "(walk s ! k, [offset s k..<offset s (Suc k)]) \<in> set (rev ?R)"
    using assigned_nth [OF assms(4), of 0] assms(4)
    by (simp add: offset_def in_set_conv_nth) (metis length_assigned)
  moreover have "distinct (map fst (rev ?R))"
    using assms(3) by (simp add: rev_map [symmetric])
  ultimately have "map_of (rev ?R) (walk s ! k) = Some [offset s k..<offset s (Suc k)]"
    by (rule map_of_is_SomeI [rotated])
  then show ?thesis
    by (simp add: index_of_built [OF assms(1,2)])
qed

lemma index_of_absent:
  assumes "survey d = Some s" and "cache_ok d s" and "(src, rx) \<notin> set (walk s)"
  shows "fst (index_of d src rx) = Inl KeyError"
proof -
  have "map_of (rev (assigned (walk s) 0)) (src, rx) = None"
    using assms(3) by (simp add: map_of_eq_None_iff)
  then show ?thesis
    by (simp add: index_of_built [OF assms(1,2)])
qed

lemma index_of_present:
  assumes "survey d = Some s" and "cache_ok d s"
    and "src \<in> set (source_list s)" and "rx \<in> set (receiver_list src)"
  shows "\<exists>lo. fst (index_of d src rx) = Inr [lo..<lo + rx_nD rx] \<and> lo + rx_nD rx \<le> survey_nD s"
proof -
  let ?R = "assigned (walk s) 0"
  have "(src, rx) \<in> set (walk s)"
    using assms(3,4) by (auto simp: walk_def walk_sources_def)
  then have "(src, rx) \<in> fst ` set (rev ?R)"
    by simp
  then obtain idx where m: "map_of (rev ?R) (src, rx) = Some idx"
    by (metis map_of_eq_None_iff not_None_eq)
  then have "((src, rx), idx) \<in> set ?R"
    by (auto dest: map_of_SomeD)
  from assigned_bounds [OF this] obtain lo where
    "idx = [lo..<lo + rx_nD rx]" "lo + rx_nD rx \<le> survey_nD s"
    by (auto simp: survey_nD_walk)
  with m show ?thesis
    by (auto simp: index_of_built [OF assms(1,2)])
qed

lemma concat_assigned: "concat (map snd (assigned ps b)) = [b..<b + count_data ps]"
proof (induction ps arbitrary: b)
  case Nil
  then show ?case by simp
next
  case (Cons p ps)
  let ?n = "rx_nD (snd p)"
  have "[b..<b + ?n + count_data ps] = [b..<b + ?n] @ [b + ?n..<b + ?n + count_data ps]"
    using upt_add_eq_append [of b "b + ?n" "count_data ps"] by simp
  moreover have "concat (map snd (assigned ps (b + ?n))) = [b + ?n..<b + ?n + count_data ps]"
    by (rule Cons.IH)
  moreover have "b + count_data (p # ps) = b + ?n + count_data ps"
    by simp
  ultimately show ?case
    by (simp add: add.assoc)
qed

lemma ranges_in_walk_order:
  assumes "survey d = Some s" and "cache_ok d s" and "distinct (walk s)"
  shows "concat (map (\<lambda>p. case fst (index_of d (fst p) (snd p)) of Inl e \<Rightarrow> [] | Inr idx \<Rightarrow> idx)
                   (walk s)) = [0..<survey_nD s]"
proof -
  have "map (\<lambda>p. case fst (index_of d (fst p) (snd p)) of Inl e \<Rightarrow> [] | Inr idx \<Rightarrow> idx) (walk s)
          = map snd (assigned (walk s) 0)"
  proof (rule nth_equalityI)
    show "length (map (\<lambda>p. case fst (index_of d (fst p) (snd p)) of Inl e \<Rightarrow> [] | Inr idx \<Rightarrow> idx) (walk s))
            = length (map snd (assigned (walk s) 0))"
      by simp
  next
    fix k
    assume "k < length (map (\<lambda>p. case fst (index_of d (fst p) (snd p)) of Inl e \<Rightarrow> [] | Inr idx \<Rightarrow> idx) (walk s))"
    then have k: "k < length (walk s)" by simp
    from index_of_walk_nth [OF assms k] assigned_nth [OF k, of 0] k
    show "map (\<lambda>p. case fst (index_of d (fst p) (snd p)) of Inl e \<Rightarrow> [] | Inr idx \<Rightarrow> idx) (walk s) ! k
            = map snd (assigned (walk s) 0) ! k"
      by (simp add: offset_def)
  qed
  then show ?thesis
    by (simp add: concat_assigned survey_nD_walk)
qed

lemma offset_facts:
  "offset s 0 = 0"
  "offset s (length (walk s)) = survey_nD s"
  "k < length (walk s) \<Longrightarrow> offset s (Suc k) = offset s k + rx_nD (snd (walk s ! k))"
  by (simp_all add: offset_def survey_nD_walk take_Suc_conv_app_nth)

lemma length_assign_at [simp]: "length (assign_at a ps) = length a"
  by (induction a ps rule: assign_at.induct) simp_all

lemma assign_at_other: "i \<notin> fst ` set ps \<Longrightarrow> assign_at a ps ! i = a ! i"
  by (induction a ps rule: assign_at.induct) auto

lemma assign_at_written:
  "distinct (map fst ps) \<Longrightarrow> (i, x) \<in> set ps \<Longrightarrow> i < length a \<Longrightarrow> assign_at a ps ! i = x"
proof (induction a ps rule: assign_at.induct)
  case (1 a)
  then show ?case by simp
next
  case (2 a j y rest)
  show ?case
  proof (cases "(i, x) = (j, y)")
    case True
    with "2.prems" have "i \<notin> fst ` set rest" by auto
    with True "2.prems"(3) show ?thesis by (simp add: assign_at_other)
  next
    case False
    with "2.prems" have "(i, x) \<in> set rest" "distinct (map fst rest)" by auto
    with "2.IH" "2.prems"(3) show ?thesis by simp
  qed
qed

lemma read_after_write:
  assumes "hi \<le> length a" and "length v = hi - lo"
  shows "map (\<lambda>i. assign_at a (zip [lo..<hi] v) ! i) [lo..<hi] = v"
proof (rule nth_equalityI)
  show "length (map (\<lambda>i. assign_at a (zip [lo..<hi] v) ! i) [lo..<hi]) = length v"
    using assms by simp
next
  fix k
  assume "k < length (map (\<lambda>i. assign_at a (zip [lo..<hi] v) ! i) [lo..<hi])"
  then have k: "k < hi - lo" by simp
  have m: "(lo + k, v ! k) \<in> set (zip [lo..<hi] v)"
    using k assms(2) by (auto simp: in_set_zip intro!: exI [of _ k])
  have d: "distinct (map fst (zip [lo..<hi] v))"
    using assms(2) by simp
  have l: "lo + k < length a" using k assms(1) by simp
  have "assign_at a (zip [lo..<hi] v) ! (lo + k) = v ! k"
    by (rule assign_at_written [OF d m l])
  then show "map (\<lambda>i. assign_at a (zip [lo..<hi] v) ! i) [lo..<hi] ! k = v ! k"
    using k by simp
qed

subsection \<open>Reading and writing a range\<close>

lemma index_dict_warn:
  "index_dict (warn msg d) = (fst (index_dict d), warn msg (snd (index_dict d)))"
  by (simp add: index_dict_def warn_def split: option.splits prod.splits)

lemma dobs_warn [simp]: "dobs (warn msg d) = dobs d"
  by (simp add: warn_def)

lemma warn_dobs_update: "warn msg (d\<lparr>dobs := a\<rparr>) = (warn msg d)\<lparr>dobs := a\<rparr>"
  by (simp add: warn_def)

lemma getitem_range_read:
  "getitem d (src, rx)
     = (fst (range_read d src rx), warn dict_deprecation (snd (range_read d src rx)))"
proof -
  obtain r d1 where i: "index_dict d = (r, d1)" by (cases "index_dict d")
  then have w: "index_dict (warn dict_deprecation d) = (r, warn dict_deprecation d1)"
    by (simp add: index_dict_warn)
  show ?thesis
    by (cases r) (simp_all add: getitem_def range_read_def index_of_def i w split: option.splits)
qed

lemma setitem_range_write:
  "setitem d (src, rx) value
     = (fst (range_write d src rx value),
        warn dict_deprecation (snd (range_write d src rx value)))"
proof -
  obtain r d1 where i: "index_dict d = (r, d1)" by (cases "index_dict d")
  then have w: "index_dict (warn dict_deprecation d) = (r, warn dict_deprecation d1)"
    by (simp add: index_dict_warn)
  show ?thesis
    by (cases r)
      (simp_all add: setitem_def range_write_def index_of_def i w warn_dobs_update
        split: option.splits sum.splits)
qed

lemma warnings_index_dict: "warnings (snd (index_dict d)) = warnings d"
  by (simp add: index_dict_def split: option.splits prod.splits)

lemma warnings_getitem: "warnings (snd (getitem d (src, rx))) = warnings d @ [dict_deprecation]"
proof -
  obtain r d1 where i: "index_dict d = (r, d1)" by (cases "index_dict d")
  with warnings_index_dict [of d] have "warnings d1 = warnings d" by simp
  then show ?thesis
    by (cases r)
      (simp_all add: getitem_range_read range_read_def index_of_def i warn_def
        split: option.splits)
qed

lemma warnings_setitem:
  "warnings (snd (setitem d (src, rx) value)) = warnings d @ [dict_deprecation]"
proof -
  obtain r d1 where i: "index_dict d = (r, d1)" by (cases "index_dict d")
  with warnings_index_dict [of d] have "warnings d1 = warnings d" by simp
  then show ?thesis
    by (cases r)
      (simp_all add: setitem_range_write range_write_def index_of_def i warn_def
        split: option.splits sum.splits)
qed

lemma index_of_state:
  assumes "survey d = Some s" and "cache_ok d s"
  shows "snd (index_of d src rx) = d\<lparr>index_dict_cache := Some (built_index s)\<rparr>"
  by (simp add: index_of_built [OF assms])

lemma cache_ok_built: "cache_ok (d\<lparr>index_dict_cache := Some (built_index s), dobs := a\<rparr>) s"
  by (simp add: cache_ok_def)

lemma range_read_values:
  assumes "survey d = Some s" and "cache_ok d s"
    and "fst (index_of d src rx) = Inr [lo..<hi]" and "dobs d = PArray a" and "hi \<le> length a"
  shows "range_read d src rx
           = (Inr (PArray (map (\<lambda>i. a ! i) [lo..<hi])),
              d\<lparr>index_dict_cache := Some (built_index s)\<rparr>)"
proof -
  have "index_of d src rx = (Inr [lo..<hi], d\<lparr>index_dict_cache := Some (built_index s)\<rparr>)"
    using assms(3) index_of_state [OF assms(1,2), of src rx] by (metis prod.collapse)
  then show ?thesis
    using assms(4,5) by (simp add: range_read_def)
qed

lemma range_write_array:
  assumes "survey d = Some s" and "cache_ok d s"
    and "fst (index_of d src rx) = Inr [lo..<hi]" and "dobs d = PArray a" and "hi \<le> length a"
  shows "range_write d src rx (PArray v)
           = (if length v = hi - lo
              then (None, d\<lparr>index_dict_cache := Some (built_index s),
                            dobs := PArray (assign_at a (zip [lo..<hi] v))\<rparr>)
              else if length v = 1
              then (None, d\<lparr>index_dict_cache := Some (built_index s),
                            dobs := PArray (assign_at a (map (\<lambda>i. (i, hd v)) [lo..<hi]))\<rparr>)
              else (Some (ValueError_broadcast (length v) (hi - lo)),
                    d\<lparr>index_dict_cache := Some (built_index s)\<rparr>))"
proof -
  have "index_of d src rx = (Inr [lo..<hi], d\<lparr>index_dict_cache := Some (built_index s)\<rparr>)"
    using assms(3) index_of_state [OF assms(1,2), of src rx] by (metis prod.collapse)
  then show ?thesis
    using assms(4,5) by (simp add: range_write_def)
qed


lemma index_of_cache_update:
  assumes "survey d = Some s" and "cache_ok d s"
  shows "fst (index_of (d\<lparr>index_dict_cache := Some (built_index s), dobs := a\<rparr>) src rx)
           = fst (index_of d src rx)"
proof -
  have "survey (d\<lparr>index_dict_cache := Some (built_index s), dobs := a\<rparr>) = Some s"
    using assms(1) by simp
  from index_of_built [OF this cache_ok_built] index_of_built [OF assms]
  show ?thesis by simp
qed

lemma range_write_read:
  assumes "survey d = Some s" and "cache_ok d s"
    and "fst (index_of d src rx) = Inr [lo..<hi]" and "dobs d = PArray a" and "hi \<le> length a"
    and "length v = hi - lo"
  shows "fst (range_write d src rx (PArray v)) = None
       \<and> fst (range_read (snd (range_write d src rx (PArray v))) src rx) = Inr (PArray v)"
proof -
  let ?d' = "d\<lparr>index_dict_cache := Some (built_index s),
               dobs := PArray (assign_at a (zip [lo..<hi] v))\<rparr>"
  have w: "range_write d src rx (PArray v) = (None, ?d')"
    using range_write_array [OF assms(1-5), of v] assms(6) by simp
  have s': "survey ?d' = Some s" using assms(1) by simp
  have i': "fst (index_of ?d' src rx) = Inr [lo..<hi]"
    using index_of_cache_update [OF assms(1,2)] assms(3) by simp
  have "range_read ?d' src rx
          = (Inr (PArray (map (\<lambda>i. assign_at a (zip [lo..<hi] v) ! i) [lo..<hi])),
             ?d'\<lparr>index_dict_cache := Some (built_index s)\<rparr>)"
    by (rule range_read_values [OF s' cache_ok_built i']) (simp_all add: assms(5))
  then show ?thesis
    using w read_after_write [OF assms(5,6)] by simp
qed

section \<open>Instances and their invariant\<close>

text \<open>
  A constructor that succeeds leaves \<open>dobs\<close> an array of \<open>survey.nD\<close> entries, whatever
  arrays it was given, and every operation keeps it so: a setter stores only what the
  length check let through, a write into a range keeps the length of the array, and the
  index, once built, is the one of the survey. So every instance is in its invariant.
\<close>

lemma set_dobs_result:
  "set_dobs d v = (None, d') \<Longrightarrow> survey d = Some s \<Longrightarrow>
     \<exists>a. d' = d\<lparr>dobs := PArray a\<rparr> \<and> length a = survey_nD s"
  by (cases v) (auto simp: set_dobs_def dobs_validator_def split: if_splits)

lemma set_standard_deviation_frame:
  "set_standard_deviation d v = (r, d') \<Longrightarrow> dobs d' = dobs d \<and> survey d' = survey d"
  by (auto simp: set_standard_deviation_def split: sum.splits)

lemma set_noise_floor_frame:
  "set_noise_floor d v = (r, d') \<Longrightarrow> dobs d' = dobs d \<and> survey d' = survey d"
  by (auto simp: set_noise_floor_def split: sum.splits)

lemma Data_init_invariant:
  assumes "Data_init d0 s dobs0 sd0 nf0 = (None, d)"
  shows "survey d = Some s \<and> (\<exists>a. dobs d = PArray a \<and> length a = survey_nD s)"
proof -
  let ?d1 = "d0\<lparr>survey := Some s\<rparr>"
  let ?v = "if dobs0 = PNone then PArray (map (fmul NaN) (np_ones (survey_nD s))) else dobs0"
  obtain r2 d2 where s2: "set_dobs ?d1 ?v = (r2, d2)" by (cases "set_dobs ?d1 ?v")
  have r2: "r2 = None"
    using assms s2 by (cases r2) (simp_all add: Data_init_def Let_def)
  let ?sd = "if sd0 = PNone then PArray (np_zeros (survey_nD s)) else sd0"
  obtain r3 d3 where s3: "set_standard_deviation d2 ?sd = (r3, d3)"
    by (cases "set_standard_deviation d2 ?sd")
  have r3: "r3 = None"
    using assms s2 r2 s3 by (cases r3) (simp_all add: Data_init_def Let_def)
  let ?nf = "if nf0 = PNone then PArray (np_zeros (survey_nD s)) else nf0"
  have s4: "set_noise_floor d3 ?nf = (None, d)"
    using assms s2 r2 s3 r3 by (simp add: Data_init_def Let_def)
  from set_dobs_result [of ?d1 ?v d2 s] s2 r2
  obtain a where "d2 = ?d1\<lparr>dobs := PArray a\<rparr>" "length a = survey_nD s" by auto
  then have "survey d2 = Some s" "dobs d2 = PArray a" "length a = survey_nD s" by simp_all
  with set_standard_deviation_frame [OF s3] set_noise_floor_frame [OF s4]
  show ?thesis by simp
qed

lemma Data_init_cache:
  assumes "Data_init d0 s dobs0 sd0 nf0 = (r, d)"
  shows "index_dict_cache d = index_dict_cache d0"
  using assms
  by (auto simp: Data_init_def Let_def set_dobs_def set_standard_deviation_def
      set_noise_floor_def split: sum.splits option.splits prod.splits if_splits)

lemma invariant_set_dobs: "invariant d s \<Longrightarrow> invariant (snd (set_dobs d v)) s"
  by (cases v)
    (auto simp: invariant_def cache_ok_def set_dobs_def dobs_validator_def split: if_splits)

lemma invariant_set_standard_deviation:
  "invariant d s \<Longrightarrow> invariant (snd (set_standard_deviation d v)) s"
  by (auto simp: invariant_def cache_ok_def set_standard_deviation_def split: sum.splits)

lemma invariant_set_noise_floor:
  "invariant d s \<Longrightarrow> invariant (snd (set_noise_floor d v)) s"
  by (auto simp: invariant_def cache_ok_def set_noise_floor_def split: sum.splits)

lemma invariant_set_uncertainty: "invariant d s \<Longrightarrow> invariant (snd (set_uncertainty d v)) s"
  by (simp add: set_uncertainty_def attr_self_def split: sum.splits)

lemma invariant_index_dict: "invariant d s \<Longrightarrow> invariant (snd (index_dict d)) s"
  by (auto simp: invariant_def index_dict_built cache_ok_def)

lemma np_setitem_length:
  "np_setitem (PArray a) index v = Inr b \<Longrightarrow> \<exists>a'. b = PArray a' \<and> length a' = length a"
  by (cases v) (auto split: if_splits sum.splits)

lemma invariant_range_write:
  assumes "invariant d s"
  shows "invariant (snd (range_write d src rx v)) s"
proof -
  from assms obtain a where s: "survey d = Some s" and c: "cache_ok d s"
    and a: "dobs d = PArray a" "length a = survey_nD s"
    by (auto simp: invariant_def)
  let ?d1 = "d\<lparr>index_dict_cache := Some (built_index s)\<rparr>"
  have i: "index_of d src rx = (fst (index_of d src rx), ?d1)"
    using index_of_state [OF s c, of src rx] by (metis prod.collapse)
  have inv1: "invariant ?d1 s"
    using s a by (simp add: invariant_def cache_ok_def)
  show ?thesis
  proof (cases "fst (index_of d src rx)")
    case (Inl e)
    with i inv1 show ?thesis by (simp add: range_write_def)
  next
    case (Inr idx)
    show ?thesis
    proof (cases "np_setitem (PArray a) idx v")
      case (Inl e)
      with i Inr inv1 a show ?thesis by (simp add: range_write_def)
    next
      case (Inr b)
      from np_setitem_length [OF this] obtain a' where "b = PArray a'" "length a' = length a"
        by blast
      with i \<open>fst (index_of d src rx) = Inr idx\<close> Inr s a show ?thesis
        by (simp add: range_write_def invariant_def cache_ok_def)
    qed
  qed
qed

lemma invariant_warn: "invariant d s \<Longrightarrow> invariant (warn msg d) s"
  by (simp add: invariant_def cache_ok_def warn_def)

lemma invariant_setitem:
  assumes "invariant d s"
  shows "invariant (snd (setitem d key v)) s"
proof -
  have "invariant (warn dict_deprecation (snd (range_write d (fst key) (snd key) v))) s"
    by (rule invariant_warn [OF invariant_range_write [OF assms]])
  then show ?thesis
    using setitem_range_write [of d "fst key" "snd key" v] by simp
qed

lemma invariant_getitem:
  assumes "invariant d s"
  shows "invariant (snd (getitem d key)) s"
proof -
  have "snd (range_read d (fst key) (snd key)) = snd (index_dict d)"
    by (simp add: range_read_def index_of_def split: prod.splits sum.splits option.splits)
  moreover have "invariant (warn dict_deprecation (snd (index_dict d))) s"
    by (rule invariant_warn [OF invariant_index_dict [OF assms]])
  ultimately show ?thesis
    using getitem_range_read [of d "fst key" "snd key"] by simp
qed

lemma Data_instance_invariant: "Data_instance s d \<Longrightarrow> invariant d s"
proof (induction rule: Data_instance.induct)
  case (constructed s dobs0 sd0 nf0 d)
  from Data_init_invariant [OF constructed] Data_init_cache [OF constructed]
  show ?case by (simp add: invariant_def cache_ok_def new_Data_def)
qed (simp_all add: invariant_set_dobs invariant_set_standard_deviation
    invariant_set_noise_floor invariant_set_uncertainty invariant_index_dict
    invariant_getitem invariant_setitem invariant_range_write)

lemma ex_data_instance: "Data_instance ex_survey ex_data"
  by (rule constructed [of ex_survey PNone PNone PNone]) (simp add: ex_data_def Data_init_no_arrays)

section \<open>The clean data of SyntheticData\<close>

lemma SyntheticData_init_no_arrays:
  "SyntheticData_init new_SyntheticData s PNone PNone PNone PNone
     = (None, \<lparr>survey = Some s,
          dobs = PArray (replicate (survey_nD s) NaN),
          standard_deviation = PArray (replicate (survey_nD s) (Fl 0)),
          noise_floor = PArray (replicate (survey_nD s) (Fl 0)),
          index_dict_cache = None, warnings = [],
          dclean = PArray (replicate (survey_nD s) NaN)\<rparr>)"
proof -
  have "Data_init new_SyntheticData s PNone PNone PNone
          = (None, \<lparr>survey = Some s,
               dobs = PArray (replicate (survey_nD s) NaN),
               standard_deviation = PArray (replicate (survey_nD s) (Fl 0)),
               noise_floor = PArray (replicate (survey_nD s) (Fl 0)),
               index_dict_cache = None, warnings = [], dclean = PNone\<rparr>)"
    by (simp add: Data_init_def new_SyntheticData_def set_dobs_def set_standard_deviation_def
      set_noise_floor_def dobs_validator_def uncertainty_validator_def np_ones_def np_zeros_def)
  then show ?thesis
    by (simp add: SyntheticData_init_def set_dclean_def dclean_validator_def
        dobs_validator_def np_ones_def)
qed

lemma ex_synthetic_eq:
  "ex_synthetic = \<lparr>survey = Some ex_survey,
          dobs = PArray (replicate 6 NaN),
          standard_deviation = PArray (replicate 6 (Fl 0)),
          noise_floor = PArray (replicate 6 (Fl 0)),
          index_dict_cache = None, warnings = [],
          dclean = PArray (replicate 6 NaN)\<rparr>"
  by (simp add: ex_synthetic_def SyntheticData_init_no_arrays ex_survey_nD)

lemma SyntheticData_init_default_dclean:
  assumes "Data_init new_SyntheticData s dobs0 sd0 nf0 = (None, d1)"
  shows "SyntheticData_init new_SyntheticData s dobs0 PNone sd0 nf0
           = (None, d1\<lparr>dclean := PArray (replicate (survey_nD s) NaN)\<rparr>)"
proof -
  from Data_init_invariant [OF assms] have sv: "survey d1 = Some s" by blast
  then have "set_dclean d1 (PArray (map (fmul NaN) (np_ones (survey_nD s))))
               = (None, d1\<lparr>dclean := PArray (replicate (survey_nD s) NaN)\<rparr>)"
    by (simp add: set_dclean_def dclean_validator_def dobs_validator_def np_ones_def)
  then show ?thesis
    using assms sv by (simp add: SyntheticData_init_def)
qed

text \<open>
  Claim C9. \<open>SyntheticData\<close> checks \<open>dclean\<close> as \<open>Data\<close> checks \<open>dobs\<close>: an array is
  stored when its length is \<open>survey.nD\<close> and raises the error of the length check
  otherwise (the instance unchanged), and any value is accepted for \<open>dclean\<close> exactly
  when it is accepted for \<open>dobs\<close>. The constructor first runs the constructor of \<open>Data\<close>
  on the arrays given: when that raises, so does it; when that succeeds and no \<open>dclean\<close>
  is given, the instance holds what \<open>Data\<close> constructed and \<open>survey.nD\<close> copies of the
  sentinel as \<open>dclean\<close>, whatever \<open>dobs\<close>, \<open>standard_deviation\<close> and \<open>noise_floor\<close>
  were given; a \<open>dclean\<close> that is given goes through the setter. With no array given at
  all, the instance holds the defaults of \<open>Data\<close> and the sentinels.
\<close>

theorem dclean_length_invariant:
  assumes "survey d = Some s"
  shows "set_dclean d (PArray a)
           = (if length a = survey_nD s then (None, d\<lparr>dclean := PArray a\<rparr>)
              else (Some (ValueError ''dclean'' (length a) (survey_nD s)), d))
       \<and> set_dobs d (PArray a)
           = (if length a = survey_nD s then (None, d\<lparr>dobs := PArray a\<rparr>)
              else (Some (ValueError ''dobs'' (length a) (survey_nD s)), d))
       \<and> (\<forall>v. (fst (set_dclean d v) = None) = (fst (set_dobs d v) = None))
       \<and> SyntheticData_init new_SyntheticData s PNone PNone PNone PNone
           = (None, \<lparr>survey = Some s,
                dobs = PArray (replicate (survey_nD s) NaN),
                standard_deviation = PArray (replicate (survey_nD s) (Fl 0)),
                noise_floor = PArray (replicate (survey_nD s) (Fl 0)),
                index_dict_cache = None, warnings = [],
                dclean = PArray (replicate (survey_nD s) NaN)\<rparr>)
       \<and> (\<forall>d1. Data_init new_SyntheticData s dobs0 sd0 nf0 = (None, d1) \<longrightarrow>
              SyntheticData_init new_SyntheticData s dobs0 PNone sd0 nf0
                = (None, d1\<lparr>dclean := PArray (replicate (survey_nD s) NaN)\<rparr>)
              \<and> (dclean0 \<noteq> PNone \<longrightarrow>
                   SyntheticData_init new_SyntheticData s dobs0 dclean0 sd0 nf0
                     = set_dclean d1 dclean0))
       \<and> (\<forall>e d1. Data_init new_SyntheticData s dobs0 sd0 nf0 = (Some e, d1) \<longrightarrow>
              SyntheticData_init new_SyntheticData s dobs0 dclean0 sd0 nf0 = (Some e, d1))"
proof -
  have iff: "(fst (set_dclean d v) = None) = (fst (set_dobs d v) = None)" for v
    by (cases v)
      (simp_all add: set_dclean_def set_dobs_def dclean_validator_def dobs_validator_def assms)
  have a: "set_dclean d (PArray a)
           = (if length a = survey_nD s then (None, d\<lparr>dclean := PArray a\<rparr>)
              else (Some (ValueError ''dclean'' (length a) (survey_nD s)), d))"
    using assms by (simp add: set_dclean_def dclean_validator_def dobs_validator_def)
  have b: "set_dobs d (PArray a)
           = (if length a = survey_nD s then (None, d\<lparr>dobs := PArray a\<rparr>)
              else (Some (ValueError ''dobs'' (length a) (survey_nD s)), d))"
    using assms by (simp add: set_dobs_def dobs_validator_def)
  have given: "dclean0 \<noteq> PNone \<longrightarrow>
                 SyntheticData_init new_SyntheticData s dobs0 dclean0 sd0 nf0
                   = set_dclean d1 dclean0"
    if "Data_init new_SyntheticData s dobs0 sd0 nf0 = (None, d1)" for d1
    using that by (simp add: SyntheticData_init_def)
  have raised: "SyntheticData_init new_SyntheticData s dobs0 dclean0 sd0 nf0 = (Some e, d1)"
    if "Data_init new_SyntheticData s dobs0 sd0 nf0 = (Some e, d1)" for e d1
    using that by (simp add: SyntheticData_init_def)
  show ?thesis
    using a b iff SyntheticData_init_no_arrays [of s]
      SyntheticData_init_default_dclean [of s dobs0 sd0 nf0] given raised
    by blast
qed

lemma ex_Data_init_given:
  "Data_init new_SyntheticData ex_survey (PArray (replicate 6 (Fl 1))) (PFloat (Fl (1/2))) PNone
     = (None, \<lparr>survey = Some ex_survey,
          dobs = PArray (replicate 6 (Fl 1)),
          standard_deviation = PArray (replicate 6 (Fl (1/2))),
          noise_floor = PArray (replicate 6 (Fl 0)),
          index_dict_cache = None, warnings = [], dclean = PNone\<rparr>)"
  by (simp add: Data_init_def new_SyntheticData_def set_dobs_def set_standard_deviation_def
      set_noise_floor_def dobs_validator_def uncertainty_validator_def nD_def map_fmul_ones
      np_zeros_def ex_survey_nD)

theorem dclean_length_invariant_witness:
  "survey ex_synthetic = Some ex_survey
   \<and> set_dclean ex_synthetic (PArray [Fl 1, Fl 2])
       = (Some (ValueError ''dclean'' 2 6), ex_synthetic)
   \<and> set_dclean ex_synthetic (PArray (replicate 6 (Fl 1)))
       = (None, ex_synthetic\<lparr>dclean := PArray (replicate 6 (Fl 1))\<rparr>)
   \<and> SyntheticData_init new_SyntheticData ex_survey
         (PArray (replicate 6 (Fl 1))) PNone (PFloat (Fl (1/2))) PNone
       = (None, \<lparr>survey = Some ex_survey,
            dobs = PArray (replicate 6 (Fl 1)),
            standard_deviation = PArray (replicate 6 (Fl (1/2))),
            noise_floor = PArray (replicate 6 (Fl 0)),
            index_dict_cache = None, warnings = [],
            dclean = PArray (replicate 6 NaN)\<rparr>)"
proof -
  have s: "survey ex_synthetic = Some ex_survey"
    by (simp add: ex_synthetic_eq)
  from dclean_length_invariant [OF s, of "[Fl 1, Fl 2]"]
  have short: "set_dclean ex_synthetic (PArray [Fl 1, Fl 2])
                 = (Some (ValueError ''dclean'' 2 6), ex_synthetic)"
    by (simp add: ex_survey_nD)
  from dclean_length_invariant [OF s, of "replicate 6 (Fl 1)"]
  have full: "set_dclean ex_synthetic (PArray (replicate 6 (Fl 1)))
                = (None, ex_synthetic\<lparr>dclean := PArray (replicate 6 (Fl 1))\<rparr>)"
    by (simp add: ex_survey_nD)
  from dclean_length_invariant [OF s, of "[]" "PArray (replicate 6 (Fl 1))"
      "PFloat (Fl (1/2))" PNone PNone] ex_Data_init_given
  have init: "SyntheticData_init new_SyntheticData ex_survey
         (PArray (replicate 6 (Fl 1))) PNone (PFloat (Fl (1/2))) PNone
       = (None, \<lparr>survey = Some ex_survey,
            dobs = PArray (replicate 6 (Fl 1)),
            standard_deviation = PArray (replicate 6 (Fl (1/2))),
            noise_floor = PArray (replicate 6 (Fl 0)),
            index_dict_cache = None, warnings = [],
            dclean = PArray (replicate 6 NaN)\<rparr>)"
    by (simp add: ex_survey_nD)
  show ?thesis
    using s short full init by blast
qed

section \<open>Scalars assigned to the uncertainty fields\<close>

lemma float_broadcast:
  assumes "invariant d s"
  shows "set_standard_deviation d (PFloat x)
           = (None, d\<lparr>standard_deviation := PArray (replicate (survey_nD s) x)\<rparr>)"
    and "set_standard_deviation d (PArray (replicate (survey_nD s) x))
           = (None, d\<lparr>standard_deviation := PArray (replicate (survey_nD s) x)\<rparr>)"
    and "set_noise_floor d (PFloat x)
           = (None, d\<lparr>noise_floor := PArray (replicate (survey_nD s) x)\<rparr>)"
    and "set_noise_floor d (PArray (replicate (survey_nD s) x))
           = (None, d\<lparr>noise_floor := PArray (replicate (survey_nD s) x)\<rparr>)"
  using assms
  by (auto simp: invariant_def set_standard_deviation_def set_noise_floor_def
      uncertainty_validator_def dobs_validator_def nD_def map_fmul_ones)

text \<open>
  Claim C6, as amended. For every \<open>Data\<close> instance, \<open>n\<close> the datum count of its survey,
  and every scalar that is a float \<open>x\<close>, or a Python integer \<open>i\<close> that \<open>float\<close> can
  convert (\<open>|i| < 2 ^ 1024 - 2 ^ 970\<close>): assigning the scalar to \<open>standard_deviation\<close>
  leaves the instance in the same state as assigning the array of \<open>n\<close> copies of it
  (of \<open>float(i)\<close> for the integer); both succeed and the field holds that array.
  Likewise for \<open>noise_floor\<close>.
\<close>

theorem scalar_broadcast:
  assumes "Data_instance s d"
  shows "set_standard_deviation d (PFloat x)
           = set_standard_deviation d (PArray (replicate (survey_nD s) x))
       \<and> set_standard_deviation d (PFloat x)
           = (None, d\<lparr>standard_deviation := PArray (replicate (survey_nD s) x)\<rparr>)
       \<and> set_noise_floor d (PFloat x)
           = set_noise_floor d (PArray (replicate (survey_nD s) x))
       \<and> set_noise_floor d (PFloat x)
           = (None, d\<lparr>noise_floor := PArray (replicate (survey_nD s) x)\<rparr>)
       \<and> (\<bar>i\<bar> < 2 ^ 1024 - 2 ^ 970 \<longrightarrow>
            set_standard_deviation d (PInt i)
              = set_standard_deviation d (PArray (replicate (survey_nD s) (Fl (of_int i))))
            \<and> set_standard_deviation d (PInt i)
              = (None, d\<lparr>standard_deviation :=
                            PArray (replicate (survey_nD s) (Fl (of_int i)))\<rparr>)
            \<and> set_noise_floor d (PInt i)
              = set_noise_floor d (PArray (replicate (survey_nD s) (Fl (of_int i))))
            \<and> set_noise_floor d (PInt i)
              = (None, d\<lparr>noise_floor := PArray (replicate (survey_nD s) (Fl (of_int i)))\<rparr>))"
proof -
  note inv = Data_instance_invariant [OF assms]
  have int: "set_standard_deviation d (PInt i)
              = set_standard_deviation d (PArray (replicate (survey_nD s) (Fl (of_int i))))
            \<and> set_standard_deviation d (PInt i)
              = (None, d\<lparr>standard_deviation :=
                            PArray (replicate (survey_nD s) (Fl (of_int i)))\<rparr>)
            \<and> set_noise_floor d (PInt i)
              = set_noise_floor d (PArray (replicate (survey_nD s) (Fl (of_int i))))
            \<and> set_noise_floor d (PInt i)
              = (None, d\<lparr>noise_floor := PArray (replicate (survey_nD s) (Fl (of_int i)))\<rparr>)"
    if bound: "\<bar>i\<bar> < 2 ^ 1024 - 2 ^ 970"
  proof -
    have f: "py_float i = Inr (Fl (of_int i))"
      using bound by (simp add: py_float_def)
    have "set_standard_deviation d (PInt i) = set_standard_deviation d (PFloat (Fl (of_int i)))"
      and "set_noise_floor d (PInt i) = set_noise_floor d (PFloat (Fl (of_int i)))"
      by (simp_all add: set_standard_deviation_def set_noise_floor_def f)
    then show ?thesis
      using float_broadcast [OF inv, of "Fl (of_int i)"] by metis
  qed
  have fl: "set_standard_deviation d (PFloat x)
           = set_standard_deviation d (PArray (replicate (survey_nD s) x))
       \<and> set_standard_deviation d (PFloat x)
           = (None, d\<lparr>standard_deviation := PArray (replicate (survey_nD s) x)\<rparr>)
       \<and> set_noise_floor d (PFloat x)
           = set_noise_floor d (PArray (replicate (survey_nD s) x))
       \<and> set_noise_floor d (PFloat x)
           = (None, d\<lparr>noise_floor := PArray (replicate (survey_nD s) x)\<rparr>)"
    using float_broadcast [OF inv, of x] by simp
  from int have il: "\<bar>i\<bar> < 2 ^ 1024 - 2 ^ 970 \<longrightarrow>
            set_standard_deviation d (PInt i)
              = set_standard_deviation d (PArray (replicate (survey_nD s) (Fl (of_int i))))
            \<and> set_standard_deviation d (PInt i)
              = (None, d\<lparr>standard_deviation :=
                            PArray (replicate (survey_nD s) (Fl (of_int i)))\<rparr>)
            \<and> set_noise_floor d (PInt i)
              = set_noise_floor d (PArray (replicate (survey_nD s) (Fl (of_int i))))
            \<and> set_noise_floor d (PInt i)
              = (None, d\<lparr>noise_floor := PArray (replicate (survey_nD s) (Fl (of_int i)))\<rparr>)"
    by (rule impI)
  show ?thesis
    by (rule conjI [OF fl il, unfolded conj_assoc])
qed

theorem scalar_broadcast_witness:
  "Data_instance ex_survey ex_data
   \<and> set_standard_deviation ex_data (PFloat (Fl (1/2)))
       = (None, ex_data\<lparr>standard_deviation := PArray (replicate 6 (Fl (1/2)))\<rparr>)
   \<and> set_standard_deviation ex_data (PFloat (Fl (1/2)))
       = set_standard_deviation ex_data (PArray (replicate 6 (Fl (1/2))))
   \<and> \<bar>7 :: int\<bar> < 2 ^ 1024 - 2 ^ 970
   \<and> set_noise_floor ex_data (PInt 7)
       = set_noise_floor ex_data (PArray (replicate 6 (Fl 7)))
   \<and> set_noise_floor ex_data (PInt 7)
       = (None, ex_data\<lparr>noise_floor := PArray (replicate 6 (Fl 7))\<rparr>)"
proof -
  have b: "\<bar>7 :: int\<bar> < 2 ^ 1024 - 2 ^ 970" by simp
  note t = scalar_broadcast [OF ex_data_instance, of "Fl (1/2)" 7,
      unfolded ex_survey_nD of_int_numeral]
  have a: "set_standard_deviation ex_data (PFloat (Fl (1/2)))
       = (None, ex_data\<lparr>standard_deviation := PArray (replicate 6 (Fl (1/2)))\<rparr>)"
    "set_standard_deviation ex_data (PFloat (Fl (1/2)))
       = set_standard_deviation ex_data (PArray (replicate 6 (Fl (1/2))))"
    using t by blast+
  have c: "set_noise_floor ex_data (PInt 7)
       = set_noise_floor ex_data (PArray (replicate 6 (Fl 7)))"
    "set_noise_floor ex_data (PInt 7)
       = (None, ex_data\<lparr>noise_floor := PArray (replicate 6 (Fl 7))\<rparr>)"
    using t b by blast+
  show ?thesis
    using ex_data_instance a b c by blast
qed

text \<open>
  The claim as it was stated, for every scalar, fails at the integer \<open>2 ^ 1024\<close> on the
  instance of the example survey: the assignment of the scalar raises \<open>OverflowError\<close>
  and leaves the instance as it was, while the assignment of an array of \<open>n\<close> copies,
  of whatever float, succeeds; no such array leaves the same state.
\<close>

theorem scalar_not_array_counterexample:
  "Data_instance ex_survey ex_data
   \<and> \<not> (\<exists>x. set_standard_deviation ex_data (PInt (2 ^ 1024))
              = set_standard_deviation ex_data (PArray (replicate (survey_nD ex_survey) x)))
   \<and> \<not> (\<exists>x. set_noise_floor ex_data (PInt (2 ^ 1024))
              = set_noise_floor ex_data (PArray (replicate (survey_nD ex_survey) x)))"
proof -
  note inv = Data_instance_invariant [OF ex_data_instance]
  have "fst (set_standard_deviation ex_data (PInt (2 ^ 1024))) = Some OverflowError"
    and "fst (set_noise_floor ex_data (PInt (2 ^ 1024))) = Some OverflowError"
    by (simp_all add: set_standard_deviation_def set_noise_floor_def py_float_def)
  moreover have "fst (set_standard_deviation ex_data
                    (PArray (replicate (survey_nD ex_survey) x))) = None"
    and "fst (set_noise_floor ex_data (PArray (replicate (survey_nD ex_survey) x))) = None"
    for x
    by (simp_all add: float_broadcast(2,4) [OF inv])
  ultimately show ?thesis
    using ex_data_instance by (metis option.distinct(1))
qed

text \<open>
  Claim C10, as amended. For every \<open>Data\<close> instance and every Python integer \<open>i\<close> that
  \<open>float\<close> can convert (\<open>|i| < 2 ^ 1024 - 2 ^ 970\<close>): assigning \<open>i\<close> to
  \<open>standard_deviation\<close> or \<open>noise_floor\<close> succeeds and leaves the field the array of
  \<open>survey.nD\<close> copies of \<open>float(i)\<close>; the integer is made a float by
  \<open>UncertaintyArray.validate\<close> and then takes the path of a float scalar.
\<close>

theorem integer_scalar_broadcast:
  assumes "Data_instance s d" and "\<bar>i\<bar> < 2 ^ 1024 - 2 ^ 970"
  shows "py_float i = Inr (Fl (of_int i))
       \<and> set_standard_deviation d (PInt i)
           = (None, d\<lparr>standard_deviation := PArray (replicate (survey_nD s) (Fl (of_int i)))\<rparr>)
       \<and> set_standard_deviation d (PInt i) = set_standard_deviation d (PFloat (Fl (of_int i)))
       \<and> set_noise_floor d (PInt i)
           = (None, d\<lparr>noise_floor := PArray (replicate (survey_nD s) (Fl (of_int i)))\<rparr>)
       \<and> set_noise_floor d (PInt i) = set_noise_floor d (PFloat (Fl (of_int i)))"
proof -
  have f: "py_float i = Inr (Fl (of_int i))"
    using assms(2) by (simp add: py_float_def)
  have "set_standard_deviation d (PInt i) = set_standard_deviation d (PFloat (Fl (of_int i)))"
    and "set_noise_floor d (PInt i) = set_noise_floor d (PFloat (Fl (of_int i)))"
    by (simp_all add: set_standard_deviation_def set_noise_floor_def f)
  then show ?thesis
    using f float_broadcast(1,3) [OF Data_instance_invariant [OF assms(1)], of "Fl (of_int i)"]
    by simp
qed

theorem integer_scalar_broadcast_witness:
  "Data_instance ex_survey ex_data \<and> \<bar>3 :: int\<bar> < 2 ^ 1024 - 2 ^ 970
   \<and> set_standard_deviation ex_data (PInt 3)
       = (None, ex_data\<lparr>standard_deviation := PArray (replicate 6 (Fl 3))\<rparr>)"
proof -
  have b: "\<bar>3 :: int\<bar> < 2 ^ 1024 - 2 ^ 970" by simp
  note t = integer_scalar_broadcast [OF ex_data_instance b, unfolded ex_survey_nD]
  show ?thesis
    using ex_data_instance b t by simp
qed

text \<open>
  The claim as it was stated, for every Python integer, fails at \<open>2 ^ 1024\<close>:
  \<open>float\<close> raises \<open>OverflowError\<close> inside \<open>UncertaintyArray.validate\<close>, and the field
  is not assigned.
\<close>

theorem integer_overflow_counterexample:
  "Data_instance ex_survey ex_data
   \<and> set_standard_deviation ex_data (PInt (2 ^ 1024)) = (Some OverflowError, ex_data)
   \<and> set_noise_floor ex_data (PInt (2 ^ 1024)) = (Some OverflowError, ex_data)"
  by (simp add: ex_data_instance set_standard_deviation_def set_noise_floor_def py_float_def)

section \<open>The ranges of a survey\<close>

lemma count_data_take_le: "count_data (take k ps) \<le> count_data ps"
  using count_data_simps(3) [of "take k ps" "drop k ps"] by simp

lemma walk_ex: "walk ex_survey = [(ex_s1, ex_r1), (ex_s1, ex_r2), (ex_s2, ex_r3)]"
  by (simp add: walk_def ex_survey_def ex_s1_def ex_s2_def)

lemma distinct_walk_ex: "distinct (walk ex_survey)"
  by (simp add: walk_ex ex_s1_def ex_s2_def ex_r1_def ex_r2_def ex_r3_def)

lemma ex_ranges:
  "fst (index_of ex_data ex_s1 ex_r1) = Inr [0..<2]"
  "fst (index_of ex_data ex_s1 ex_r2) = Inr [2..<5]"
  "fst (index_of ex_data ex_s2 ex_r3) = Inr [5..<6]"
proof -
  have o: "offset ex_survey 0 = 0" "offset ex_survey 1 = 2" "offset ex_survey 2 = 5"
    "offset ex_survey 3 = 6"
    by (simp_all add: offset_def walk_ex ex_r1_def ex_r2_def ex_r3_def)
  from index_of_walk_nth [OF survey_ex_data cache_ex_data distinct_walk_ex, of 0]
  show "fst (index_of ex_data ex_s1 ex_r1) = Inr [0..<2]"
    using o by (simp add: walk_ex)
  from index_of_walk_nth [OF survey_ex_data cache_ex_data distinct_walk_ex, of 1]
  show "fst (index_of ex_data ex_s1 ex_r2) = Inr [2..<5]"
    using o by (simp add: walk_ex numeral_2_eq_2)
  from index_of_walk_nth [OF survey_ex_data cache_ex_data distinct_walk_ex, of 2]
  show "fst (index_of ex_data ex_s2 ex_r3) = Inr [5..<6]"
    using o by (simp add: walk_ex numeral_3_eq_3)
qed

lemma ex_write_read:
  "fst (range_write ex_data ex_s1 ex_r2 (PArray [Fl 7, Fl 8, Fl 9])) = None
   \<and> fst (range_read (snd (range_write ex_data ex_s1 ex_r2 (PArray [Fl 7, Fl 8, Fl 9])))
        ex_s1 ex_r2) = Inr (PArray [Fl 7, Fl 8, Fl 9])"
  by (rule range_write_read [OF survey_ex_data cache_ex_data ex_ranges(2) dobs_ex_data])
    simp_all

lemma dup_index_of:
  "fst (index_of dup_data src rx)
     = (if (src, rx) = (dup_s, dup_r) then Inr [2..<4] else Inl KeyError)"
proof -
  have s: "survey dup_data = Some dup_survey" and c: "cache_ok dup_data dup_survey"
    by (simp_all add: dup_data_eq cache_ok_def)
  have w: "walk dup_survey = [(dup_s, dup_r), (dup_s, dup_r)]"
    by (simp add: walk_def dup_survey_def dup_s_def)
  have n: "rx_nD dup_r = 2" by (simp add: dup_r_def)
  show ?thesis
    by (simp add: index_of_built [OF s c] w n)
qed

lemma dup_data_instance: "Data_instance dup_survey dup_data"
  by (rule constructed [of dup_survey PNone PNone PNone])
    (simp add: dup_data_def Data_init_no_arrays)

text \<open>
  Claim C3, as amended. For every \<open>Data\<close> instance of a survey whose walk (sources in
  order, receivers of each source in order) meets no (source, receiver) pair twice: the
  \<open>k\<close>-th pair of the walk is given the range \<open>[offset k, offset (k + 1))\<close>, which starts
  where the range before it ends and holds as many positions as the receiver has data;
  the first range starts at \<open>0\<close> and the last ends at \<open>survey.nD\<close>, so the ranges, listed
  in the order of the walk, are \<open>0, 1, ..., survey.nD - 1\<close> exactly; a pair outside the
  walk is no key. Writing as many values as the receiver has data at a range of \<open>dobs\<close>
  and reading the range back yields the values written. For the survey \<open>[s1, s2]\<close> with
  \<open>s1: [r1 (2), r2 (3)]\<close> and \<open>s2: [r3 (1)]\<close>, \<open>survey.nD\<close> is \<open>6\<close>, the ranges are
  \<open>r1: [0, 2)\<close>, \<open>r2: [2, 5)\<close>, \<open>r3: [5, 6)\<close>, and \<open>[7, 8, 9]\<close> written at \<open>[2, 5)\<close> is
  read back from it.
\<close>

theorem index_ranges_partition:
  assumes "Data_instance s d" and "distinct (walk s)"
  shows "(\<forall>k<length (walk s).
            fst (index_of d (fst (walk s ! k)) (snd (walk s ! k)))
              = Inr [offset s k..<offset s (Suc k)]
          \<and> offset s (Suc k) = offset s k + rx_nD (snd (walk s ! k)))
       \<and> offset s 0 = 0
       \<and> offset s (length (walk s)) = survey_nD s
       \<and> concat (map (\<lambda>p. case fst (index_of d (fst p) (snd p)) of
                              Inl e \<Rightarrow> [] | Inr idx \<Rightarrow> idx) (walk s)) = [0..<survey_nD s]
       \<and> (\<forall>src rx. (src, rx) \<notin> set (walk s) \<longrightarrow> fst (index_of d src rx) = Inl KeyError)
       \<and> (\<forall>k<length (walk s). \<forall>v. length v = rx_nD (snd (walk s ! k)) \<longrightarrow>
            fst (range_write d (fst (walk s ! k)) (snd (walk s ! k)) (PArray v)) = None
            \<and> fst (range_read
                    (snd (range_write d (fst (walk s ! k)) (snd (walk s ! k)) (PArray v)))
                    (fst (walk s ! k)) (snd (walk s ! k))) = Inr (PArray v))
       \<and> Data_instance ex_survey ex_data
       \<and> survey_nD ex_survey = 6
       \<and> fst (index_of ex_data ex_s1 ex_r1) = Inr [0..<2]
       \<and> fst (index_of ex_data ex_s1 ex_r2) = Inr [2..<5]
       \<and> fst (index_of ex_data ex_s2 ex_r3) = Inr [5..<6]
       \<and> fst (range_write ex_data ex_s1 ex_r2 (PArray [Fl 7, Fl 8, Fl 9])) = None
       \<and> fst (range_read (snd (range_write ex_data ex_s1 ex_r2 (PArray [Fl 7, Fl 8, Fl 9])))
            ex_s1 ex_r2) = Inr (PArray [Fl 7, Fl 8, Fl 9])"
proof -
  from Data_instance_invariant [OF assms(1)] obtain a where
    sv: "survey d = Some s" and ck: "cache_ok d s"
    and da: "dobs d = PArray a" and la: "length a = survey_nD s"
    by (auto simp: invariant_def)
  have ranges: "\<forall>k<length (walk s).
            fst (index_of d (fst (walk s ! k)) (snd (walk s ! k)))
              = Inr [offset s k..<offset s (Suc k)]
          \<and> offset s (Suc k) = offset s k + rx_nD (snd (walk s ! k))"
    using index_of_walk_nth [OF sv ck assms(2)] offset_facts(3) by blast
  have absent: "\<forall>src rx. (src, rx) \<notin> set (walk s) \<longrightarrow> fst (index_of d src rx) = Inl KeyError"
    using index_of_absent [OF sv ck] by blast
  have roundtrip: "\<forall>k<length (walk s). \<forall>v. length v = rx_nD (snd (walk s ! k)) \<longrightarrow>
            fst (range_write d (fst (walk s ! k)) (snd (walk s ! k)) (PArray v)) = None
            \<and> fst (range_read
                    (snd (range_write d (fst (walk s ! k)) (snd (walk s ! k)) (PArray v)))
                    (fst (walk s ! k)) (snd (walk s ! k))) = Inr (PArray v)"
  proof (intro allI impI)
    fix k and v :: "pyfloat list"
    assume k: "k < length (walk s)" and h: "length v = rx_nD (snd (walk s ! k))"
    have i: "fst (index_of d (fst (walk s ! k)) (snd (walk s ! k)))
               = Inr [offset s k..<offset s (Suc k)]"
      using ranges k by blast
    have "offset s (Suc k) \<le> offset s (length (walk s))"
      by (simp add: offset_def count_data_take_le)
    then have b: "offset s (Suc k) \<le> length a"
      using la by (simp add: offset_facts(2))
    have l: "length v = offset s (Suc k) - offset s k"
      using h offset_facts(3) [OF k] by simp
    from range_write_read [OF sv ck i da b l]
    show "fst (range_write d (fst (walk s ! k)) (snd (walk s ! k)) (PArray v)) = None
            \<and> fst (range_read
                    (snd (range_write d (fst (walk s ! k)) (snd (walk s ! k)) (PArray v)))
                    (fst (walk s ! k)) (snd (walk s ! k))) = Inr (PArray v)"
      by blast
  qed
  show ?thesis
    using ranges absent roundtrip offset_facts(1,2) [of s] ranges_in_walk_order [OF sv ck assms(2)]
      ex_data_instance ex_survey_nD ex_ranges ex_write_read
    by blast
qed

theorem index_ranges_partition_witness:
  "Data_instance ex_survey ex_data \<and> distinct (walk ex_survey)
   \<and> concat (map (\<lambda>p. case fst (index_of ex_data (fst p) (snd p)) of
                          Inl e \<Rightarrow> [] | Inr idx \<Rightarrow> idx) (walk ex_survey)) = [0..<6]"
  using index_ranges_partition [OF ex_data_instance distinct_walk_ex]
    ex_data_instance distinct_walk_ex
  by (simp add: ex_survey_nD)

text \<open>
  The claim as it was stated, for every survey, fails on the survey whose source lists
  one receiver of two data twice: the dictionary keeps one entry for the receiver, the
  range \<open>[2, 4)\<close> of its second turn, and no range holds position \<open>0\<close> of the four data.
\<close>

theorem repeated_receiver_counterexample:
  "Data_instance dup_survey dup_data
   \<and> survey_nD dup_survey = 4
   \<and> fst (index_of dup_data dup_s dup_r) = Inr [2..<4]
   \<and> \<not> (\<exists>src rx idx. fst (index_of dup_data src rx) = Inr idx \<and> 0 \<in> set idx)"
  by (auto simp: dup_data_instance dup_survey_nD dup_index_of split: if_splits)

section \<open>Dictionary-style access\<close>

text \<open>
  Claim C8. For every \<open>Data\<close> instance and every key \<open>(src, rx)\<close> of its survey,
  \<open>data[src, rx]\<close> returns what reading \<open>dobs\<close> over the receiver's range returns, and
  \<open>data[src, rx] = value\<close> does to \<open>dobs\<close> what writing the range does: each is the access
  through \<open>index_dict\<close> with one deprecation warning added to the warnings of the
  instance, and the warning changes neither the result nor whether the access fails.
  The read succeeds with the entries of \<open>dobs\<close> at the receiver's range, and a write of
  as many values as the receiver has data succeeds and puts them at the range.
\<close>

theorem dict_access_adapter:
  assumes "Data_instance s d"
    and "src \<in> set (source_list s)" and "rx \<in> set (receiver_list src)"
  shows "getitem d (src, rx)
           = (fst (range_read d src rx), warn dict_deprecation (snd (range_read d src rx)))
       \<and> setitem d (src, rx) value
           = (fst (range_write d src rx value),
              warn dict_deprecation (snd (range_write d src rx value)))
       \<and> warnings (snd (getitem d (src, rx))) = warnings d @ [dict_deprecation]
       \<and> warnings (snd (setitem d (src, rx) value)) = warnings d @ [dict_deprecation]
       \<and> (\<exists>a lo. dobs d = PArray a \<and> length a = survey_nD s
              \<and> fst (index_of d src rx) = Inr [lo..<lo + rx_nD rx]
              \<and> lo + rx_nD rx \<le> survey_nD s
              \<and> fst (getitem d (src, rx)) = Inr (PArray (map (\<lambda>i. a ! i) [lo..<lo + rx_nD rx]))
              \<and> (length v = rx_nD rx \<longrightarrow>
                   fst (setitem d (src, rx) (PArray v)) = None
                   \<and> dobs (snd (setitem d (src, rx) (PArray v)))
                       = PArray (assign_at a (zip [lo..<lo + rx_nD rx] v))))"
proof -
  from Data_instance_invariant [OF assms(1)] obtain a where
    sv: "survey d = Some s" and ck: "cache_ok d s"
    and da: "dobs d = PArray a" and la: "length a = survey_nD s"
    by (auto simp: invariant_def)
  from index_of_present [OF sv ck assms(2,3)] obtain lo where
    i: "fst (index_of d src rx) = Inr [lo..<lo + rx_nD rx]" and b: "lo + rx_nD rx \<le> survey_nD s"
    by blast
  from b la have b': "lo + rx_nD rx \<le> length a" by simp
  have g: "fst (getitem d (src, rx)) = Inr (PArray (map (\<lambda>i. a ! i) [lo..<lo + rx_nD rx]))"
    using range_read_values [OF sv ck i da b'] by (simp add: getitem_range_read)
  have w: "length v = rx_nD rx \<longrightarrow>
             fst (setitem d (src, rx) (PArray v)) = None
             \<and> dobs (snd (setitem d (src, rx) (PArray v)))
                 = PArray (assign_at a (zip [lo..<lo + rx_nD rx] v))"
    using range_write_array [OF sv ck i da b', of v]
    by (simp add: setitem_range_write)
  show ?thesis
    using da la i b g w getitem_range_read [of d src rx]
      setitem_range_write [of d src rx "value"]
      warnings_getitem [of d src rx] warnings_setitem [of d src rx "value"]
    by blast
qed

theorem dict_access_adapter_witness:
  "Data_instance ex_survey ex_data
   \<and> ex_s1 \<in> set (source_list ex_survey) \<and> ex_r2 \<in> set (receiver_list ex_s1)
   \<and> warnings (snd (getitem ex_data (ex_s1, ex_r2))) = warnings ex_data @ [dict_deprecation]
   \<and> getitem ex_data (ex_s1, ex_r2)
       = (fst (range_read ex_data ex_s1 ex_r2),
          warn dict_deprecation (snd (range_read ex_data ex_s1 ex_r2)))"
proof -
  from dict_access_adapter [OF ex_data_instance ex_members]
  show ?thesis
    using ex_data_instance ex_members by blast
qed

section \<open>Where the length check runs\<close>




end
